theory Spec2Isabelle
  imports Main "HOL-Library.AList" "HOL-Library.Sublist"
begin

section \<open>wallpaper.py: the wallpaper and automation engine\<close>

text \<open>
  The script acts on the file system, on the process table and on external tools.
  The embedding passes an explicit \<open>world\<close> through every function. What the script
  cannot decide itself (whether a tool is installed, its exit status, the bytes it writes,
  the order in which started threads run, the random pick) is a field of the world, so
  every theorem holds for every such environment.
\<close>

subsection \<open>Paths and strings\<close>

text \<open>
  A \<open>pathlib.Path\<close> is modelled as the list of its components below the root, so all
  paths are absolute. \<open>str(path)\<close> is \<open>path_str\<close>, \<open>path.name\<close> is \<open>path_name\<close>.
\<close>

type_synonym path = "string list"

definition path_str :: "path \<Rightarrow> string" where
  "path_str p = (if p = [] then ''/'' else concat (map (\<lambda>c. CHR ''/'' # c) p))"

definition path_name :: "path \<Rightarrow> string" where
  "path_name p = (if p = [] then [] else last p)"

text \<open>
  \<open>PurePath.suffix\<close>: the part of the name from its last dot on, when that dot is neither
  the first nor the last character of the name; otherwise the empty string.
\<close>

fun rfind_dot :: "string \<Rightarrow> nat option" where
  "rfind_dot [] = None"
| "rfind_dot (c # cs) =
     (case rfind_dot cs of
        Some i \<Rightarrow> Some (Suc i)
      | None \<Rightarrow> if c = CHR ''.'' then Some 0 else None)"

definition path_suffix :: "path \<Rightarrow> string" where
  "path_suffix p =
     (let name = path_name p in
      case rfind_dot name of
        None \<Rightarrow> []
      | Some i \<Rightarrow> if 0 < i \<and> i < length name - 1 then drop i name else [])"

text \<open>
  \<open>str.lower\<close> on the ASCII letters. The extension set of the script is ASCII and no
  other character lowers to one of its letters, so membership of \<open>suffix.lower()\<close> in
  the set is decided by the ASCII part.
\<close>

definition lower_char :: "char \<Rightarrow> char" where
  "lower_char c =
     (let n = (of_char c :: nat) in if 65 \<le> n \<and> n \<le> 90 then char_of (n + 32) else c)"

definition lower :: "string \<Rightarrow> string" where
  "lower s = map lower_char s"

text \<open>\<open>str.strip()\<close>: ASCII white space is removed at both ends.\<close>

definition isspace :: "char \<Rightarrow> bool" where
  "isspace c = (let n = (of_char c :: nat) in (9 \<le> n \<and> n \<le> 13) \<or> (28 \<le> n \<and> n \<le> 32))"

definition strip :: "string \<Rightarrow> string" where
  "strip s = rev (dropWhile isspace (rev (dropWhile isspace s)))"

text \<open>\<open>str(n)\<close> for an integer: decimal digits, with a minus sign when negative.\<close>

definition digit_char :: "nat \<Rightarrow> char" where
  "digit_char d = char_of (48 + d)"

fun dec :: "nat \<Rightarrow> string" where
  "dec n = (if n < 10 then [digit_char n] else dec (n div 10) @ [digit_char (n mod 10)])"

declare dec.simps [simp del]

definition py_str :: "int \<Rightarrow> string" where
  "py_str n = (if n < 0 then CHR ''-'' # dec (nat (- n)) else dec (nat n))"

text \<open>
  \<open>int(s)\<close> on a string: surrounding white space is ignored, one sign is allowed, then
  decimal digits, with single underscores allowed between digits. Anything else is a
  \<open>ValueError\<close>, here \<open>None\<close>.
\<close>

definition is_digit :: "char \<Rightarrow> bool" where
  "is_digit c = (let n = (of_char c :: nat) in 48 \<le> n \<and> n \<le> 57)"

definition digit_val :: "char \<Rightarrow> nat" where
  "digit_val c = of_char c - 48"

fun underscores_ok :: "string \<Rightarrow> bool" where
  "underscores_ok (a # b # r) =
     (\<not> (a = CHR ''_'' \<and> b = CHR ''_'') \<and> underscores_ok (b # r))"
| "underscores_ok _ = True"

definition literal_ok :: "string \<Rightarrow> bool" where
  "literal_ok s =
     (s \<noteq> [] \<and> is_digit (hd s) \<and> is_digit (last s) \<and>
      list_all (\<lambda>c. is_digit c \<or> c = CHR ''_'') s \<and> underscores_ok s)"

definition literal_val :: "string \<Rightarrow> nat" where
  "literal_val s = foldl (\<lambda>a c. 10 * a + digit_val c) 0 (filter is_digit s)"

definition py_int :: "string \<Rightarrow> int option" where
  "py_int s =
     (case strip s of
        [] \<Rightarrow> None
      | c # r \<Rightarrow>
          if c = CHR ''-'' then (if literal_ok r then Some (- int (literal_val r)) else None)
          else if c = CHR ''+'' then (if literal_ok r then Some (int (literal_val r)) else None)
          else if literal_ok (c # r) then Some (int (literal_val (c # r))) else None)"

subsection \<open>The world\<close>

text \<open>
  The file system is a finite table from absolute paths to nodes. Arguments of a command
  line that are \<open>str(path)\<close> keep the path (\<open>P\<close>), so that the effect of a tool can be
  stated on the file it names; \<open>arg_str\<close> is the text the tool receives.
\<close>

datatype node = File string | Dir

datatype arg = S string | P path

fun arg_str :: "arg \<Rightarrow> string" where
  "arg_str (S s) = s"
| "arg_str (P p) = path_str p"

record proc =
  cmd :: "arg list"
  foreign :: bool
  traps_term :: bool

datatype level = INFO | ERROR

datatype event =
    Exec "arg list" bool
  | Spawn "arg list" int
  | Signal int
  | Sleep int

datatype task = Theme arg | Transform path string "string list"

record thread =
  task :: task
  finished :: bool
  joined :: bool

datatype exn =
    FileNotFoundError
  | IsADirectoryError
  | NotADirectoryError
  | SameFileError
  | CalledProcessError
  | ProcessLookupError
  | PermissionError
  | OverflowError
  | ValueError
  | IndexError
  | GroupSignal
  | SystemExit int

text \<open>
  \<^item> \<open>fs\<close>: the file system; \<open>programs\<close>: the names \<open>shutil.which\<close> finds;
  \<^item> \<open>exits_ok\<close>: whether a command line, run to completion, exits with status 0;
    \<open>magick_out\<close>: the bytes ImageMagick writes for a command line;
  \<^item> \<open>procs\<close>: the live processes by pid; \<open>foreign\<close> ones may not be signalled by this
    user, \<open>traps_term\<close> ones survive SIGTERM;
  \<^item> \<open>threads\<close>: the threads started so far; \<open>sched\<close> and \<open>tick\<close>: at the \<open>tick\<close>-th
    scheduling point the started, unfinished threads listed in \<open>sched tick\<close> run to
    completion;
  \<^item> \<open>rand\<close> and \<open>rand_ix\<close>: the random numbers drawn by \<open>random.choice\<close>;
  \<^item> \<open>ambient\<close> and \<open>naps\<close>: what the rest of the system does to the file system during
    the \<open>naps\<close>-th \<open>time.sleep\<close>;
  \<^item> \<open>events\<close>: external invocations, in order; \<open>out\<close>: the lines logged.
\<close>

record world =
  fs :: "(path \<times> node) list"
  programs :: "string list"
  exits_ok :: "arg list \<Rightarrow> bool"
  magick_out :: "arg list \<Rightarrow> string"
  procs :: "(int \<times> proc) list"
  threads :: "thread list"
  sched :: "nat \<Rightarrow> nat list"
  tick :: nat
  rand :: "nat \<Rightarrow> nat"
  rand_ix :: nat
  ambient :: "nat \<Rightarrow> (path \<times> node) list \<Rightarrow> (path \<times> node) list"
  naps :: nat
  events :: "event list"
  out :: "(level \<times> string) list"

text \<open>Results: the exception raised (\<open>Inl\<close>) or the value returned, with the world reached.\<close>

type_synonym 'a res = "(exn + 'a) \<times> world"

subsection \<open>Configuration\<close>

text \<open>
  The module constants are computed from the home directory and \<open>XDG_CACHE_HOME\<close>;
  \<open>executable\<close> and \<open>argv0\<close> are \<open>sys.executable\<close> and \<open>sys.argv[0]\<close>.
\<close>

record config =
  home :: path
  xdg_cache_home :: "path option"
  executable :: string
  argv0 :: string

definition WALLPAPER_DIR :: "config \<Rightarrow> path" where
  "WALLPAPER_DIR cfg = home cfg @ [''Pictures'', ''wallpaper'']"

definition XDG_CACHE :: "config \<Rightarrow> path" where
  "XDG_CACHE cfg = (case xdg_cache_home cfg of Some p \<Rightarrow> p | None \<Rightarrow> home cfg @ [''.cache''])"

definition CACHE_DIR :: "config \<Rightarrow> path" where
  "CACHE_DIR cfg = XDG_CACHE cfg @ [''wallpaper'']"

definition GENERATED_DIR :: "config \<Rightarrow> path" where
  "GENERATED_DIR cfg = CACHE_DIR cfg @ [''generated'']"

definition PID_FILE :: "config \<Rightarrow> path" where
  "PID_FILE cfg = CACHE_DIR cfg @ [''automation_pid'']"

definition current_file :: "config \<Rightarrow> path" where
  "current_file cfg = CACHE_DIR cfg @ [''current_wallpaper'']"

subsection \<open>File-system primitives\<close>

definition lookup :: "world \<Rightarrow> path \<Rightarrow> node option" where
  "lookup w p = map_of (fs w) p"

definition path_exists :: "world \<Rightarrow> path \<Rightarrow> bool" where
  "path_exists w p = (lookup w p \<noteq> None)"

definition is_file :: "world \<Rightarrow> path \<Rightarrow> bool" where
  "is_file w p = (case lookup w p of Some (File c) \<Rightarrow> True | _ \<Rightarrow> False)"

definition is_dir :: "world \<Rightarrow> path \<Rightarrow> bool" where
  "is_dir w p = (lookup w p = Some Dir)"

definition read_text :: "path \<Rightarrow> world \<Rightarrow> exn + string" where
  "read_text p w =
     (case lookup w p of
        None \<Rightarrow> Inl FileNotFoundError
      | Some Dir \<Rightarrow> Inl IsADirectoryError
      | Some (File c) \<Rightarrow> Inr c)"

text \<open>
  Writing a file needs its parent to be an existing directory and the target not to be
  one. \<open>write_text\<close>, the copy of \<open>shutil.copy\<close> and the output of a tool all go
  through \<open>write_file\<close>.
\<close>

definition write_file :: "path \<Rightarrow> string \<Rightarrow> world \<Rightarrow> exn + world" where
  "write_file p c w =
     (if p = [] then Inl IsADirectoryError
      else case lookup w (butlast p) of
        None \<Rightarrow> Inl FileNotFoundError
      | Some (File x) \<Rightarrow> Inl NotADirectoryError
      | Some Dir \<Rightarrow>
          (case lookup w p of
             Some Dir \<Rightarrow> Inl IsADirectoryError
           | _ \<Rightarrow> Inr (w\<lparr>fs := AList.update p (File c) (fs w)\<rparr>)))"

definition write_text :: "path \<Rightarrow> string \<Rightarrow> world \<Rightarrow> exn + world" where
  "write_text p c w = write_file p c w"

text \<open>\<open>Path.unlink(missing_ok=True)\<close>.\<close>

definition unlink_missing_ok :: "path \<Rightarrow> world \<Rightarrow> exn + world" where
  "unlink_missing_ok p w =
     (case lookup w p of
        None \<Rightarrow> Inr w
      | Some Dir \<Rightarrow> Inl IsADirectoryError
      | Some (File c) \<Rightarrow> Inr (w\<lparr>fs := AList.delete p (fs w)\<rparr>))"

text \<open>
  \<open>shutil.copy(src, dst)\<close>: when \<open>dst\<close> is a directory the copy goes into it under the
  name of \<open>src\<close>; copying a file onto itself is refused.
\<close>

definition shutil_copy :: "path \<Rightarrow> path \<Rightarrow> world \<Rightarrow> exn + world" where
  "shutil_copy src dst w =
     (let target = (if is_dir w dst then dst @ [path_name src] else dst) in
      case read_text src w of
        Inl e \<Rightarrow> Inl e
      | Inr c \<Rightarrow> if target = src then Inl SameFileError else write_file target c w)"

text \<open>
  \<open>Path.rglob("*")\<close>: every entry strictly below the directory, each once.
\<close>

definition rglob :: "world \<Rightarrow> path \<Rightarrow> path list" where
  "rglob w d = filter (strict_prefix d) (remdups (map fst (fs w)))"

subsection \<open>Logging\<close>

text \<open>
  The log functions only print. The model records level and message, without the ANSI
  styling and the script-name tag.
\<close>

definition log_info :: "string \<Rightarrow> world \<Rightarrow> world" where
  "log_info msg w = w\<lparr>out := out w @ [(INFO, msg)]\<rparr>"

definition log_error :: "string \<Rightarrow> world \<Rightarrow> world" where
  "log_error msg w = w\<lparr>out := out w @ [(ERROR, msg)]\<rparr>"

subsection \<open>Reading the current wallpaper\<close>

definition default_wallpaper :: "config \<Rightarrow> path" where
  "default_wallpaper cfg = WALLPAPER_DIR cfg @ [''anime'', ''a_tree_trunk_with_a_branch.png'']"

text \<open>
  \<open>get_current_wallpaper\<close> (lines 113-121): the stripped text of the state file when
  the file exists, else the default path.
\<close>

definition get_current_wallpaper :: "config \<Rightarrow> world \<Rightarrow> exn + string" where
  "get_current_wallpaper cfg w =
     (if path_exists w (current_file cfg) then
        (case read_text (current_file cfg) w of Inl e \<Rightarrow> Inl e | Inr c \<Rightarrow> Inr (strip c))
      else Inr (path_str (default_wallpaper cfg)))"

subsection \<open>Processes and external tools\<close>

text \<open>\<open>shutil.which(name)\<close>, as a truth value.\<close>

definition which :: "world \<Rightarrow> string \<Rightarrow> bool" where
  "which w name = (name \<in> set (programs w))"

text \<open>
  A new process gets a pid that no live process has; the model takes the least pid above
  all live ones. Processes started by the script belong to the user and do not trap SIGTERM.
\<close>

definition fresh_pid :: "(int \<times> proc) list \<Rightarrow> int" where
  "fresh_pid ps = fold max (map fst ps) 0 + 1"

definition popen :: "arg list \<Rightarrow> world \<Rightarrow> int res" where
  "popen c w =
     (case c of
        [] \<Rightarrow> (Inl IndexError, w)
      | a # rest \<Rightarrow>
          if \<not> which w (arg_str a) then (Inl FileNotFoundError, w)
          else let pid = fresh_pid (procs w) in
            (Inr pid,
             w\<lparr>procs := procs w @ [(pid, \<lparr>cmd = c, foreign = False, traps_term = False\<rparr>)],
               events := events w @ [Spawn c pid]\<rparr>))"

text \<open>
  What a tool does when it runs, and whether it exits with status 0.
  \<^item> \<open>magick ... out\<close> exits with 0 when the environment says so and \<open>out\<close> can be
    written; it then has written \<open>out\<close>.
  \<^item> \<open>pkill name\<close> sends SIGTERM to the processes of that name it may signal and exits
    with 0 when there was one.
  \<^item> Every other tool (\<open>wallust\<close>, \<open>systemctl\<close>, \<open>makoctl\<close>, \<open>notify-send\<close>) leaves
    the modelled part of the world alone.
\<close>

definition pkill_hits :: "string \<Rightarrow> int \<times> proc \<Rightarrow> bool" where
  "pkill_hits name e =
     (case cmd (snd e) of [] \<Rightarrow> False | a # rest \<Rightarrow> arg_str a = name \<and> \<not> foreign (snd e))"

definition tool_run :: "arg list \<Rightarrow> world \<Rightarrow> bool \<times> world" where
  "tool_run c w =
     (case c of
        [] \<Rightarrow> (False, w)
      | a # rest \<Rightarrow>
          if arg_str a = ''magick'' \<and> rest \<noteq> [] then
            (case last rest of
               S x \<Rightarrow> (exits_ok w c, w)
             | P outp \<Rightarrow>
                 (case write_file outp (magick_out w c) w of
                    Inl e \<Rightarrow> (False, w)
                  | Inr w' \<Rightarrow> if exits_ok w c then (True, w') else (False, w)))
          else if arg_str a = ''pkill'' \<and> length rest = 1 then
            (list_ex (pkill_hits (arg_str (hd rest))) (procs w),
             w\<lparr>procs := filter (\<lambda>e. \<not> (pkill_hits (arg_str (hd rest)) e \<and> \<not> traps_term (snd e)))
                          (procs w)\<rparr>)
          else (exits_ok w c, w))"

text \<open>
  \<open>subprocess.run(cmd, check=...)\<close>: a program that is not installed raises
  \<open>FileNotFoundError\<close>; with \<open>check\<close>, a non-zero exit raises \<open>CalledProcessError\<close>.
\<close>

definition subprocess_run :: "arg list \<Rightarrow> bool \<Rightarrow> world \<Rightarrow> bool res" where
  "subprocess_run c check w =
     (case c of
        [] \<Rightarrow> (Inl IndexError, w)
      | a # rest \<Rightarrow>
          if \<not> which w (arg_str a) then (Inl FileNotFoundError, w)
          else let (ok, w1) = tool_run c w;
                   w2 = w1\<lparr>events := events w1 @ [Exec c ok]\<rparr> in
            if check \<and> \<not> ok then (Inl CalledProcessError, w2) else (Inr ok, w2))"

text \<open>
  \<open>os.kill(pid, signal.SIGTERM)\<close>. A value outside the range of a C \<open>int\<close> does not
  convert to a pid. A pid \<open>\<le> 0\<close> addresses a process group, the caller's own included,
  which the process table does not record: the model stops there with \<open>GroupSignal\<close>.
\<close>

definition os_kill :: "int \<Rightarrow> world \<Rightarrow> exn + world" where
  "os_kill pid w =
     (if pid < - (2 ^ 31) \<or> 2 ^ 31 \<le> pid then Inl OverflowError
      else if pid \<le> 0 then Inl GroupSignal
      else case map_of (procs w) pid of
        None \<Rightarrow> Inl ProcessLookupError
      | Some p \<Rightarrow>
          if foreign p then Inl PermissionError
          else Inr (w\<lparr>procs := (if traps_term p then procs w else AList.delete pid (procs w)),
                      events := events w @ [Signal pid]\<rparr>))"

text \<open>\<open>notify\<close> (lines 74-77): \<open>notify-send\<close> is run, unchecked, when it is installed.\<close>

definition notify :: "string \<Rightarrow> string \<Rightarrow> world \<Rightarrow> unit res" where
  "notify summary body w =
     (if which w ''notify-send'' then
        (case subprocess_run [S ''notify-send'', S summary, S body] False w of
           (Inl e, w1) \<Rightarrow> (Inl e, w1)
         | (Inr ok, w1) \<Rightarrow> (Inr (), w1))
      else (Inr (), w))"

subsection \<open>Helpers\<close>

fun join_space :: "string list \<Rightarrow> string" where
  "join_space [] = []"
| "join_space [x] = x"
| "join_space (x # y # r) = x @ '' '' @ join_space (y # r)"

text \<open>\<open>run_cmd\<close> returns a truth value, or the process handle when run in the background.\<close>

datatype cmd_result = Done bool | Handle int

fun truthy :: "cmd_result \<Rightarrow> bool" where
  "truthy (Done b) = b"
| "truthy (Handle pid) = True"

text \<open>
  \<open>run_cmd\<close> (lines 83-110): the two exceptions of the \<open>try\<close> block become \<open>False\<close>;
  \<open>Popen\<close> stands outside the \<open>try\<close>.
\<close>

definition run_cmd :: "arg list \<Rightarrow> bool \<Rightarrow> bool \<Rightarrow> world \<Rightarrow> cmd_result res" where
  "run_cmd c background quiet w =
     (let cmd_str = join_space (map arg_str c);
          w1 = (if \<not> quiet then log_info (''Running: '' @ cmd_str) w else w) in
      if background then
        (case popen c w1 of
           (Inl e, w2) \<Rightarrow> (Inl e, w2)
         | (Inr pid, w2) \<Rightarrow> (Inr (Handle pid), w2))
      else
        (case subprocess_run c True w1 of
           (Inr ok, w2) \<Rightarrow> (Inr (Done True), w2)
         | (Inl e, w2) \<Rightarrow>
             if e = CalledProcessError then
               (Inr (Done False), log_error (''Command failed: '' @ cmd_str) w2)
             else if e = FileNotFoundError then
               (Inr (Done False), log_error (''Application not found: '' @ arg_str (hd c)) w2)
             else (Inl e, w2)))"

subsection \<open>Core logic\<close>

text \<open>
  \<open>launch_swaybg\<close> (lines 127-141). \<open>subprocess.run\<close> of \<open>pkill\<close> is unchecked, but
  a missing \<open>pkill\<close> raises.
\<close>

definition launch_swaybg :: "arg \<Rightarrow> world \<Rightarrow> bool res" where
  "launch_swaybg wallpaper_path w =
     (if \<not> which w ''swaybg'' then
        (Inr False, log_error ''application not found: swaybg'' w)
      else
        let w1 = log_info ''Killing any running instances of swaybg'' w in
        case subprocess_run [S ''pkill'', S ''swaybg''] False w1 of
          (Inl e, w2) \<Rightarrow> (Inl e, w2)
        | (Inr ok, w2) \<Rightarrow>
            let w3 = log_info (''Running command: swaybg -m fill -i '' @ arg_str wallpaper_path) w2 in
            case popen [S ''swaybg'', S ''-m'', S ''fill'', S ''-i'', wallpaper_path] w3 of
              (Inl e, w4) \<Rightarrow> (Inl e, w4)
            | (Inr pid, w4) \<Rightarrow> (Inr True, log_info ''Wallpaper set!'' w4))"

text \<open>\<open>update_themes\<close> (lines 144-168); it returns \<open>None\<close> on every path.\<close>

definition update_themes :: "arg \<Rightarrow> world \<Rightarrow> unit res" where
  "update_themes wallpaper_path w =
     (if \<not> which w ''wallust'' then
        (Inr (), log_error ''application not found: wallust'' w)
      else
        let w1 = log_info (''Generating wallust color scheme: wallust run ''
                           @ arg_str wallpaper_path) w in
        case run_cmd [S ''wallust'', S ''run'', wallpaper_path] False False w1 of
          (Inl e, w2) \<Rightarrow> (Inl e, w2)
        | (Inr r, w2) \<Rightarrow>
            if \<not> truthy r then (Inr (), log_error ''wallust failed, aborting...'' w2)
            else
              let w3 = log_info ''Reloading waybar...'' w2 in
              case run_cmd [S ''systemctl'', S ''--user'', S ''restart'', S ''waybar.service'']
                     False True w3 of
                (Inl e, w4) \<Rightarrow> (Inl e, w4)
              | (Inr r1, w4) \<Rightarrow>
                  let w5 = log_info ''Restarting mako...'' w4 in
                  case run_cmd [S ''makoctl'', S ''reload''] False True w5 of
                    (Inl e, w6) \<Rightarrow> (Inl e, w6)
                  | (Inr r2, w6) \<Rightarrow> (Inr (), w6))"

text \<open>
  \<open>transform_wallpaper\<close> (lines 171-198), with its two file names and its command line.
  The effect name is taken to be one path component.
\<close>

definition generic_file :: "config \<Rightarrow> string \<Rightarrow> path" where
  "generic_file cfg effect = CACHE_DIR cfg @ [effect @ ''-wallpaper.png'']"

definition cache_file :: "config \<Rightarrow> string \<Rightarrow> path \<Rightarrow> path" where
  "cache_file cfg effect wallpaper_path =
     GENERATED_DIR cfg @ [effect @ ''-'' @ path_name wallpaper_path @ ''.png'']"

definition magick_cmd :: "config \<Rightarrow> path \<Rightarrow> string \<Rightarrow> string list \<Rightarrow> arg list" where
  "magick_cmd cfg wallpaper_path effect magick_args =
     [S ''magick'', P wallpaper_path] @ map S magick_args @ [P (generic_file cfg effect)]"

definition transform_wallpaper ::
  "config \<Rightarrow> path \<Rightarrow> string \<Rightarrow> string list \<Rightarrow> world \<Rightarrow> unit res" where
  "transform_wallpaper cfg wallpaper_path effect magick_args w =
     (if path_exists w (cache_file cfg effect wallpaper_path) then
        (let w1 = log_info (''Found cached '' @ effect @ '' version: ''
                            @ path_str (cache_file cfg effect wallpaper_path)) w in
         case shutil_copy (cache_file cfg effect wallpaper_path) (generic_file cfg effect) w1 of
           Inl e \<Rightarrow> (Inl e, w1)
         | Inr w2 \<Rightarrow> (Inr (), w2))
      else
        let w1 = log_info (''Generating new '' @ effect @ '' version'') w in
        if \<not> which w1 ''magick'' then
          (Inr (), log_error ''application not found: imagemagick'' w1)
        else
          case run_cmd (magick_cmd cfg wallpaper_path effect magick_args) False False w1 of
            (Inl e, w2) \<Rightarrow> (Inl e, w2)
          | (Inr r, w2) \<Rightarrow>
              if truthy r then
                (case shutil_copy (generic_file cfg effect)
                        (cache_file cfg effect wallpaper_path) w2 of
                   Inl e \<Rightarrow> (Inl e, w2)
                 | Inr w3 \<Rightarrow> (Inr (), w3))
              else (Inr (), w2))"

subsection \<open>Threads\<close>

text \<open>
  A started thread runs its task to completion at a scheduling point the environment
  chooses, at the latest when it is joined. An exception in a thread ends that thread only.
\<close>

definition run_task :: "config \<Rightarrow> task \<Rightarrow> world \<Rightarrow> world" where
  "run_task cfg t w =
     (case t of
        Theme a \<Rightarrow> snd (update_themes a w)
      | Transform p effect margs \<Rightarrow> snd (transform_wallpaper cfg p effect margs w))"

definition run_thread :: "config \<Rightarrow> nat \<Rightarrow> world \<Rightarrow> world" where
  "run_thread cfg i w =
     (if i < length (threads w) \<and> \<not> finished (threads w ! i) then
        (let w1 = run_task cfg (task (threads w ! i)) w in
         w1\<lparr>threads := (threads w1)[i := (threads w1 ! i)\<lparr>finished := True\<rparr>]\<rparr>)
      else w)"

definition yield :: "config \<Rightarrow> world \<Rightarrow> world" where
  "yield cfg w = fold (run_thread cfg) (sched w (tick w)) (w\<lparr>tick := Suc (tick w)\<rparr>)"

definition thread_start :: "config \<Rightarrow> task \<Rightarrow> world \<Rightarrow> nat \<times> world" where
  "thread_start cfg t w =
     (length (threads w),
      yield cfg (w\<lparr>threads := threads w @ [\<lparr>task = t, finished = False, joined = False\<rparr>]\<rparr>))"

definition thread_join :: "config \<Rightarrow> nat \<Rightarrow> world \<Rightarrow> world" where
  "thread_join cfg i w =
     (let w1 = run_thread cfg i w in
      w1\<lparr>threads := (threads w1)[i := (threads w1 ! i)\<lparr>joined := True\<rparr>]\<rparr>)"

subsection \<open>Setting the wallpaper\<close>

text \<open>
  \<open>set_wallpaper\<close> (lines 201-263). The scheduler gets its turn after each thread start,
  between the display step and the write of the state file, and before the joins. The
  early returns leave the function before the join loop.
\<close>

definition square_args :: "string list" where
  "square_args = [''-gravity'', ''Center'', ''-extent'', ''1:1'', ''-resize'', ''25%'']"

definition blur_args :: "string list" where
  "blur_args = [''-blur'', ''50x30'', ''-resize'', ''75%'']"

definition set_wallpaper :: "config \<Rightarrow> path \<Rightarrow> world \<Rightarrow> bool res" where
  "set_wallpaper cfg wallpaper_path w =
     (if \<not> path_exists w wallpaper_path then
        (Inr False, log_error (''File not found: '' @ path_str wallpaper_path) w)
      else
        let w0 = log_info (''Setting wallpaper: '' @ path_str wallpaper_path) w;
            (t_theme, w1) = thread_start cfg (Theme (P wallpaper_path)) w0;
            (t_square, w2) = thread_start cfg (Transform wallpaper_path ''square'' square_args) w1;
            (t_blur, w3) = thread_start cfg (Transform wallpaper_path ''blurred'' blur_args) w2 in
        case launch_swaybg (P wallpaper_path) w3 of
          (Inl e, w4) \<Rightarrow> (Inl e, w4)
        | (Inr ok, w4) \<Rightarrow>
            if \<not> ok then (Inr False, w4)
            else
              let w5 = yield cfg (log_info (''Caching wallpaper filename: ''
                                            @ path_str wallpaper_path) w4) in
              case write_text (current_file cfg) (path_str wallpaper_path) w5 of
                Inl e \<Rightarrow> (Inl e, w5)
              | Inr w6 \<Rightarrow>
                  (Inr True, fold (thread_join cfg) [t_theme, t_square, t_blur] (yield cfg w6)))"

subsection \<open>Selecting a wallpaper\<close>

text \<open>
  \<open>WALLPAPER_DIR / category\<close>: the components of the category are appended; empty and
  \<open>.\<close> components vanish, and an absolute category replaces the base.
\<close>

fun split_slash :: "string \<Rightarrow> string list" where
  "split_slash [] = [] # []"
| "split_slash (c # cs) =
     (if c = CHR ''/'' then [] # split_slash cs
      else case split_slash cs of [] \<Rightarrow> [c] # [] | x # xs \<Rightarrow> (c # x) # xs)"

definition path_parts :: "string \<Rightarrow> path" where
  "path_parts s = filter (\<lambda>c. c \<noteq> [] \<and> c \<noteq> ''.'') (split_slash s)"

definition path_join :: "path \<Rightarrow> string \<Rightarrow> path" where
  "path_join base s =
     (if s \<noteq> [] \<and> hd s = CHR ''/'' then path_parts s else base @ path_parts s)"

definition extensions :: "string list" where
  "extensions = [''.jpg'', ''.jpeg'', ''.png'']"

definition target_dir :: "config \<Rightarrow> string option \<Rightarrow> path" where
  "target_dir cfg category =
     (case category of
        None \<Rightarrow> WALLPAPER_DIR cfg
      | Some c \<Rightarrow> if c \<noteq> [] then path_join (WALLPAPER_DIR cfg) c else WALLPAPER_DIR cfg)"

definition images :: "world \<Rightarrow> path \<Rightarrow> path list" where
  "images w d = filter (\<lambda>f. is_file w f \<and> lower (path_suffix f) \<in> set extensions) (rglob w d)"

definition random_choice :: "'a list \<Rightarrow> world \<Rightarrow> 'a res" where
  "random_choice xs w =
     (if xs = [] then (Inl IndexError, w)
      else (Inr (xs ! (rand w (rand_ix w) mod length xs)), w\<lparr>rand_ix := Suc (rand_ix w)\<rparr>))"

definition opt_str :: "string option \<Rightarrow> string" where
  "opt_str c = (case c of None \<Rightarrow> ''None'' | Some s \<Rightarrow> s)"

text \<open>\<open>shuffle_wallpaper\<close> (lines 266-297).\<close>

definition shuffle_wallpaper :: "config \<Rightarrow> string option \<Rightarrow> world \<Rightarrow> bool res" where
  "shuffle_wallpaper cfg category w =
     (if \<not> path_exists w (target_dir cfg category) then
        (Inr False, log_error (''Category not found: '' @ opt_str category) w)
      else
        let w1 = (if category = None then log_info ''Picking a random wallpaper...'' w
                  else log_info (''Picking random wallpaper from '' @ opt_str category @ ''...'') w)
        in
        if images w1 (target_dir cfg category) = [] then
          (Inr False, log_error (''No images found in '' @ path_str (target_dir cfg category)) w1)
        else
          case random_choice (images w1 (target_dir cfg category)) w1 of
            (Inl e, w2) \<Rightarrow> (Inl e, w2)
          | (Inr chosen, w2) \<Rightarrow> set_wallpaper cfg chosen w2)"

subsection \<open>Automation\<close>

text \<open>The \<open>try\<close> block of \<open>manage_automation\<close> with its \<open>except\<close> clause.\<close>

definition kill_recorded :: "config \<Rightarrow> world \<Rightarrow> unit res" where
  "kill_recorded cfg w =
     (case read_text (PID_FILE cfg) w of
        Inl e \<Rightarrow> (Inl e, w)
      | Inr c \<Rightarrow>
          (case py_int (strip c) of
             None \<Rightarrow> (Inr (), log_info ''Cleaning abandoned automation file'' w)
           | Some old_pid \<Rightarrow>
               (case os_kill old_pid w of
                  Inl e \<Rightarrow>
                    if e = ProcessLookupError \<or> e = ValueError then
                      (Inr (), log_info ''Cleaning abandoned automation file'' w)
                    else (Inl e, w)
                | Inr w1 \<Rightarrow>
                    (Inr (), log_info (''Existing wallpaper automation stopped (pid: ''
                                       @ py_str old_pid @ '')'') w1))))"

definition loop_args :: "config \<Rightarrow> int \<Rightarrow> string option \<Rightarrow> arg list" where
  "loop_args cfg interval category =
     [S (executable cfg), S (argv0 cfg), S ''_loop'', S (py_str interval)]
     @ (case category of None \<Rightarrow> [] | Some c \<Rightarrow> if c \<noteq> [] then [S c] else [])"

text \<open>
  \<open>manage_automation\<close> (lines 303-343): the block under \<open>if PID_FILE.exists()\<close>, then
  the start or the stop.
\<close>

definition manage_automation :: "config \<Rightarrow> int \<Rightarrow> string option \<Rightarrow> world \<Rightarrow> unit res" where
  "manage_automation cfg interval category w =
     (case (if path_exists w (PID_FILE cfg) then
              (case kill_recorded cfg w of
                 (Inl e, w1) \<Rightarrow> (Inl e, w1)
               | (Inr u, w1) \<Rightarrow>
                   (case unlink_missing_ok (PID_FILE cfg) w1 of
                      Inl e \<Rightarrow> (Inl e, w1)
                    | Inr w2 \<Rightarrow> (Inr (), w2)))
            else (Inr (), w)) of
        (Inl e, w2) \<Rightarrow> (Inl e, w2)
      | (Inr u, w2) \<Rightarrow>
          if interval > 0 then
            (let w3 = log_info (''Starting new wallpaper automation, refresh rate: ''
                                @ py_str interval @ '' sec'') w2 in
             case popen (loop_args cfg interval category) w3 of
               (Inl e, w4) \<Rightarrow> (Inl e, w4)
             | (Inr pid, w4) \<Rightarrow>
                 (case write_text (PID_FILE cfg) (py_str pid) w4 of
                    Inl e \<Rightarrow> (Inl e, w4)
                  | Inr w5 \<Rightarrow>
                      notify (''Wallpaper will change every '' @ py_str interval @ '' seconds'') []
                        (log_info (''New wallpaper automation started (pid: ''
                                   @ py_str pid @ '')'') w5)))
          else notify ''Wallpaper automation stopped'' [] w2)"

text \<open>
  \<open>time.sleep(interval)\<close> refuses a negative length. While the loop sleeps the rest of the
  system may change the file system.
\<close>

definition time_sleep :: "int \<Rightarrow> world \<Rightarrow> exn + world" where
  "time_sleep interval w =
     (if interval < 0 then Inl ValueError
      else Inr (w\<lparr>fs := ambient w (naps w) (fs w), naps := Suc (naps w),
                  events := events w @ [Sleep interval]\<rparr>))"

text \<open>
  The body of the \<open>if not shuffle_wallpaper(category)\<close> branch: notify, remove the
  record, \<open>sys.exit(1)\<close>.
\<close>

definition loop_failure :: "config \<Rightarrow> world \<Rightarrow> unit res" where
  "loop_failure cfg w =
     (case notify ''Automation stopped.'' ''Error setting wallpaper'' w of
        (Inl e, w1) \<Rightarrow> (Inl e, w1)
      | (Inr u, w1) \<Rightarrow>
          (case unlink_missing_ok (PID_FILE cfg) w1 of
             Inl e \<Rightarrow> (Inl e, w1)
           | Inr w2 \<Rightarrow> (Inl (SystemExit 1), w2)))"

text \<open>
  \<open>automation_loop\<close> (lines 346-356), a \<open>while True\<close>: the loop has no normal
  exit. \<open>None\<close> is the run that never ends; every other run ends in an exception,
  \<open>SystemExit\<close> among them.
\<close>

partial_function (option) automation_loop ::
  "config \<Rightarrow> int \<Rightarrow> string option \<Rightarrow> world \<Rightarrow> unit res option" where
  "automation_loop cfg interval category w =
     (case shuffle_wallpaper cfg category w of
        (Inl e, w1) \<Rightarrow> Some (Inl e, w1)
      | (Inr ok, w1) \<Rightarrow>
          if \<not> ok then Some (loop_failure cfg w1)
          else
            (case time_sleep interval w1 of
               Inl e \<Rightarrow> Some (Inl e, w1)
             | Inr w2 \<Rightarrow> automation_loop cfg interval category w2))"

subsection \<open>A concrete installation\<close>

text \<open>
  A home directory with the directories \<open>main\<close> creates, one category \<open>space\<close> holding
  \<open>a.png\<close> and \<open>b.txt\<close>, every tool installed and succeeding, no process running, and a
  scheduler that runs threads only when they are joined.
\<close>

definition cfg0 :: config where
  "cfg0 = \<lparr>home = [''home'', ''u''], xdg_cache_home = None,
           executable = ''python3'', argv0 = ''wallpaper.py''\<rparr>"

definition fs0 :: "(path \<times> node) list" where
  "fs0 =
     [([''home'', ''u''], Dir),
      ([''home'', ''u'', ''.cache''], Dir),
      ([''home'', ''u'', ''.cache'', ''wallpaper''], Dir),
      ([''home'', ''u'', ''.cache'', ''wallpaper'', ''generated''], Dir),
      ([''home'', ''u'', ''Pictures''], Dir),
      ([''home'', ''u'', ''Pictures'', ''wallpaper''], Dir),
      ([''home'', ''u'', ''Pictures'', ''wallpaper'', ''space''], Dir),
      ([''home'', ''u'', ''Pictures'', ''wallpaper'', ''space'', ''a.png''], File ''A''),
      ([''home'', ''u'', ''Pictures'', ''wallpaper'', ''space'', ''b.txt''], File ''B'')]"

definition world0 :: world where
  "world0 =
     \<lparr>fs = fs0,
      programs = [''swaybg'', ''pkill'', ''wallust'', ''systemctl'', ''makoctl'', ''magick'',
                  ''notify-send'', ''python3''],
      exits_ok = (\<lambda>c. True), magick_out = (\<lambda>c. ''png''),
      procs = [], threads = [], sched = (\<lambda>n. []), tick = 0,
      rand = (\<lambda>n. 0), rand_ix = 0, ambient = (\<lambda>n f. f), naps = 0,
      events = [], out = []\<rparr>"

subsection \<open>Vocabulary of the properties\<close>

text \<open>The event a call of \<open>notify\<close> leaves: none when \<open>notify-send\<close> is not installed.\<close>

definition notify_events :: "string \<Rightarrow> string \<Rightarrow> world \<Rightarrow> event list" where
  "notify_events summary body w =
     (if which w ''notify-send'' then
        [Exec [S ''notify-send'', S summary, S body]
           (exits_ok w [S ''notify-send'', S summary, S body])]
      else [])"

text \<open>The reloads of \<open>update_themes\<close>, each run when its tool is installed.\<close>

definition reload_events :: "world \<Rightarrow> event list" where
  "reload_events w =
     (if which w ''systemctl'' then
        [Exec [S ''systemctl'', S ''--user'', S ''restart'', S ''waybar.service'']
           (exits_ok w [S ''systemctl'', S ''--user'', S ''restart'', S ''waybar.service''])]
      else [])
     @ (if which w ''makoctl'' then
          [Exec [S ''makoctl'', S ''reload''] (exits_ok w [S ''makoctl'', S ''reload''])]
        else [])"

text \<open>
  \<open>iter_start cfg interval category w wk\<close>: a run of the automation loop that starts in
  \<open>w\<close> begins an iteration in \<open>wk\<close>, all iterations before having succeeded and slept.
\<close>

inductive iter_start :: "config \<Rightarrow> int \<Rightarrow> string option \<Rightarrow> world \<Rightarrow> world \<Rightarrow> bool"
  for cfg interval category w where
    first: "iter_start cfg interval category w w"
  | later: "iter_start cfg interval category w wk \<Longrightarrow>
           shuffle_wallpaper cfg category wk = (Inr True, w1) \<Longrightarrow>
           time_sleep interval w1 = Inr w2 \<Longrightarrow>
           iter_start cfg interval category w w2"

text \<open>
  A loop process is one started with the command line of \<open>manage_automation\<close>; \<open>loop_pids\<close>
  lists the pids of the live ones. \<open>recorded_pid\<close> reads the pid record as the script does.
\<close>

definition is_loop :: "config \<Rightarrow> proc \<Rightarrow> bool" where
  "is_loop cfg p =
     (case cmd p of
        a # b # c # rest \<Rightarrow> a = S (executable cfg) \<and> b = S (argv0 cfg) \<and> c = S ''_loop''
      | _ \<Rightarrow> False)"

definition loop_pids :: "config \<Rightarrow> world \<Rightarrow> int list" where
  "loop_pids cfg w = map fst (filter (\<lambda>e. is_loop cfg (snd e)) (procs w))"

definition recorded_pid :: "config \<Rightarrow> world \<Rightarrow> int option" where
  "recorded_pid cfg w =
     (case lookup w (PID_FILE cfg) of Some (File c) \<Rightarrow> py_int (strip c) | _ \<Rightarrow> None)"

text \<open>
  The record and the process table agree: the record is not a directory; every live loop
  is the process the record names; and that process, when live, is one the user may
  signal and that SIGTERM ends, as every loop the script starts is.
\<close>

definition record_sound :: "config \<Rightarrow> world \<Rightarrow> bool" where
  "record_sound cfg w =
     (\<not> is_dir w (PID_FILE cfg) \<and>
      (case recorded_pid cfg w of
         None \<Rightarrow> loop_pids cfg w = []
       | Some pid \<Rightarrow>
           0 < pid \<and> pid < 2 ^ 31 \<and>
           (\<forall>e \<in> set (procs w). is_loop cfg (snd e) \<longrightarrow> fst e = pid) \<and>
           (case map_of (procs w) pid of
              None \<Rightarrow> True
            | Some p \<Rightarrow> \<not> foreign p \<and> \<not> traps_term p)))"

text \<open>
  What \<open>main\<close> and the running interpreter provide to a start: the cache directory
  exists and \<open>sys.executable\<close> can be run.
\<close>

definition start_env :: "config \<Rightarrow> world \<Rightarrow> bool" where
  "start_env cfg w = (which w (executable cfg) \<and> is_dir w (CACHE_DIR cfg))"

text \<open>The signal a start or stop sends: one SIGTERM when the record names a live process.\<close>

definition signal_events :: "config \<Rightarrow> world \<Rightarrow> event list" where
  "signal_events cfg w =
     (case recorded_pid cfg w of
        None \<Rightarrow> []
      | Some pid \<Rightarrow> if map_of (procs w) pid = None then [] else [Signal pid])"

text \<open>A sequence of \<open>auto\<close> invocations, each given its interval and category.\<close>

fun starts :: "config \<Rightarrow> (int \<times> string option) list \<Rightarrow> world \<Rightarrow> unit res" where
  "starts cfg [] w = (Inr (), w)"
| "starts cfg (op # ops) w =
     (case manage_automation cfg (fst op) (snd op) w of
        (Inl e, w1) \<Rightarrow> (Inl e, w1)
      | (Inr u, w1) \<Rightarrow> starts cfg ops w1)"

text \<open>A world whose pid record holds the given text.\<close>

definition stale_world :: "string \<Rightarrow> world" where
  "stale_world c = world0\<lparr>fs := (PID_FILE cfg0, File c) # fs0\<rparr>"

text \<open>
  \<open>touches T w w'\<close>: the world \<open>w'\<close> differs from \<open>w\<close> at most in the files at the paths
  in \<open>T\<close>, in the events and in the log.
\<close>

definition touches :: "path set \<Rightarrow> world \<Rightarrow> world \<Rightarrow> bool" where
  "touches T w w' =
     (\<exists>f ev lg. w' = w\<lparr>fs := f, events := ev, out := lg\<rparr> \<and>
        (\<forall>q. q \<notin> T \<longrightarrow> map_of f q = map_of (fs w) q))"

text \<open>
  The paths one transformation may write: the generic-latest file and the cache entry, and
  the places \<open>shutil.copy\<close> would use were one of them a directory. \<open>advances\<close>: what
  running threads may change: files at such paths, events, the log, the scheduler's
  clock, and the flags of threads, which are only ever raised.
\<close>

definition task_paths :: "config \<Rightarrow> string \<Rightarrow> path \<Rightarrow> path set" where
  "task_paths cfg e p =
     {generic_file cfg e, cache_file cfg e p,
      generic_file cfg e @ [path_name (cache_file cfg e p)],
      cache_file cfg e p @ [path_name (generic_file cfg e)]}"

definition cache_paths :: "config \<Rightarrow> path set" where
  "cache_paths cfg = (\<Union>e p. task_paths cfg e p)"

definition advances :: "config \<Rightarrow> world \<Rightarrow> world \<Rightarrow> bool" where
  "advances cfg w w' =
     (\<exists>f ev lg ts k.
        w' = w\<lparr>fs := f, events := ev, out := lg, threads := ts, tick := k\<rparr> \<and>
        (\<forall>q. q \<notin> cache_paths cfg \<longrightarrow> map_of f q = map_of (fs w) q) \<and>
        length ts = length (threads w) \<and>
        (\<forall>i < length ts. task (ts ! i) = task (threads w ! i) \<and>
           (finished (threads w ! i) \<longrightarrow> finished (ts ! i)) \<and>
           (joined (threads w ! i) \<longrightarrow> joined (ts ! i))))"

text \<open>The world of \<open>set_wallpaper\<close> when its three threads have been started.\<close>

definition after_starts :: "config \<Rightarrow> path \<Rightarrow> world \<Rightarrow> world" where
  "after_starts cfg p w =
     snd (thread_start cfg (Transform p ''blurred'' blur_args)
       (snd (thread_start cfg (Transform p ''square'' square_args)
         (snd (thread_start cfg (Theme (P p))
           (log_info (''Setting wallpaper: '' @ path_str p) w))))))"

definition new_thread :: "task \<Rightarrow> thread" where
  "new_thread t = \<lparr>task = t, finished = False, joined = False\<rparr>"

text \<open>The concrete installation without \<open>swaybg\<close>, and the image \<open>a.png\<close>.\<close>

definition no_display :: world where
  "no_display = world0\<lparr>programs := [''pkill'', ''wallust'', ''systemctl'', ''makoctl'', ''magick'']\<rparr>"

definition a_png :: path where
  "a_png = [''home'', ''u'', ''Pictures'', ''wallpaper'', ''space'', ''a.png'']"

text \<open>
  The number of \<open>magick\<close> runs among the events; the conditions under which a run of
  \<open>magick\<close> succeeds; the concrete installation with a failing \<open>magick\<close>.
\<close>

definition magick_runs :: "event list \<Rightarrow> nat" where
  "magick_runs es =
     length (filter (\<lambda>ev. case ev of Exec (a # rest) ok \<Rightarrow> arg_str a = ''magick'' | _ \<Rightarrow> False) es)"

definition magick_ok :: "config \<Rightarrow> path \<Rightarrow> string \<Rightarrow> string list \<Rightarrow> world \<Rightarrow> bool" where
  "magick_ok cfg p e margs w =
     (which w ''magick'' \<and> exits_ok w (magick_cmd cfg p e margs) \<and>
      is_dir w (CACHE_DIR cfg) \<and> \<not> is_dir w (generic_file cfg e))"

definition magick_fails :: world where
  "magick_fails = world0\<lparr>exits_ok := (\<lambda>c. hd c \<noteq> S ''magick'')\<rparr>"

section \<open>Properties\<close>

subsection \<open>Basic facts\<close>

lemmas prims = lookup_def path_exists_def is_file_def is_dir_def which_def

lemma log_fields [simp]:
  "fs (log_info m w) = fs w" "fs (log_error m w) = fs w"
  "programs (log_info m w) = programs w" "programs (log_error m w) = programs w"
  "exits_ok (log_info m w) = exits_ok w" "exits_ok (log_error m w) = exits_ok w"
  "magick_out (log_info m w) = magick_out w" "magick_out (log_error m w) = magick_out w"
  "procs (log_info m w) = procs w" "procs (log_error m w) = procs w"
  "threads (log_info m w) = threads w" "threads (log_error m w) = threads w"
  "sched (log_info m w) = sched w" "sched (log_error m w) = sched w"
  "tick (log_info m w) = tick w" "tick (log_error m w) = tick w"
  "rand (log_info m w) = rand w" "rand (log_error m w) = rand w"
  "rand_ix (log_info m w) = rand_ix w" "rand_ix (log_error m w) = rand_ix w"
  "events (log_info m w) = events w" "events (log_error m w) = events w"
  by (simp_all add: log_info_def log_error_def)

lemma log_derived [simp]:
  "lookup (log_info m w) = lookup w" "lookup (log_error m w) = lookup w"
  "which (log_info m w) = which w" "which (log_error m w) = which w"
  "path_exists (log_info m w) = path_exists w" "path_exists (log_error m w) = path_exists w"
  "is_file (log_info m w) = is_file w" "is_file (log_error m w) = is_file w"
  "is_dir (log_info m w) = is_dir w" "is_dir (log_error m w) = is_dir w"
  "rglob (log_info m w) = rglob w" "rglob (log_error m w) = rglob w"
  "images (log_info m w) = images w" "images (log_error m w) = images w"
  by (auto simp: prims rglob_def images_def fun_eq_iff)

text \<open>A tool other than \<open>magick\<close> and \<open>pkill\<close> only leaves its event.\<close>

lemma subprocess_run_plain:
  "arg_str a \<noteq> ''magick'' \<Longrightarrow> arg_str a \<noteq> ''pkill'' \<Longrightarrow>
   subprocess_run (a # rest) chk w =
     (if \<not> which w (arg_str a) then (Inl FileNotFoundError, w)
      else if chk \<and> \<not> exits_ok w (a # rest)
        then (Inl CalledProcessError, w\<lparr>events := events w @ [Exec (a # rest) False]\<rparr>)
        else (Inr (exits_ok w (a # rest)),
              w\<lparr>events := events w @ [Exec (a # rest) (exits_ok w (a # rest))]\<rparr>))"
  by (auto simp: subprocess_run_def tool_run_def)

lemma run_cmd_plain:
  "arg_str a \<noteq> ''magick'' \<Longrightarrow> arg_str a \<noteq> ''pkill'' \<Longrightarrow>
   fst (run_cmd (a # rest) False q w) =
     Inr (Done (which w (arg_str a) \<and> exits_ok w (a # rest))) \<and>
   events (snd (run_cmd (a # rest) False q w)) =
     events w @ (if which w (arg_str a) then [Exec (a # rest) (exits_ok w (a # rest))] else []) \<and>
   which (snd (run_cmd (a # rest) False q w)) = which w \<and>
   exits_ok (snd (run_cmd (a # rest) False q w)) = exits_ok w"
  by (auto simp: run_cmd_def subprocess_run_plain Let_def which_def fun_eq_iff)

lemma notify_plain:
  "notify summary body w = (Inr (), w\<lparr>events := events w @ notify_events summary body w\<rparr>)"
  by (simp add: notify_def notify_events_def subprocess_run_plain)

subsection \<open>Reading the current wallpaper\<close>

text \<open>
  C10. When the \<open>current_wallpaper\<close> file is absent, \<open>get_current_wallpaper\<close> raises
  nothing and returns the fixed path \<open>anime/a_tree_trunk_with_a_branch.png\<close> under the
  base wallpaper directory.
\<close>

theorem get_current_wallpaper_default:
  "\<not> path_exists w (current_file cfg) \<Longrightarrow>
   get_current_wallpaper cfg w =
     Inr (path_str (WALLPAPER_DIR cfg) @ ''/anime/a_tree_trunk_with_a_branch.png'')"
  by (simp add: get_current_wallpaper_def default_wallpaper_def WALLPAPER_DIR_def path_str_def)

theorem get_current_wallpaper_default_witness:
  "\<not> path_exists world0 (current_file cfg0) \<and>
   get_current_wallpaper cfg0 world0 =
     Inr ''/home/u/Pictures/wallpaper/anime/a_tree_trunk_with_a_branch.png''"
proof -
  have h: "\<not> path_exists world0 (current_file cfg0)"
    by (simp add: path_exists_def lookup_def world0_def fs0_def current_file_def CACHE_DIR_def
        XDG_CACHE_def cfg0_def)
  show ?thesis
    using h get_current_wallpaper_default [OF h]
    by (simp add: WALLPAPER_DIR_def cfg0_def path_str_def)
qed

subsection \<open>Setting a wallpaper that does not exist\<close>

text \<open>
  C3. For a path that does not exist (\<open>Path.exists()\<close> is false), \<open>set_wallpaper\<close>
  returns \<open>False\<close>; no tool is run, no process started or signalled, no thread started,
  and the file system, with the \<open>current_wallpaper\<close> file and every cache file, is as
  before. Only the error line is logged.
\<close>

theorem set_wallpaper_missing_file:
  "\<not> path_exists w p \<Longrightarrow>
   fst (set_wallpaper cfg p w) = Inr False \<and>
   events (snd (set_wallpaper cfg p w)) = events w \<and>
   procs (snd (set_wallpaper cfg p w)) = procs w \<and>
   threads (snd (set_wallpaper cfg p w)) = threads w \<and>
   fs (snd (set_wallpaper cfg p w)) = fs w"
  by (simp add: set_wallpaper_def)

theorem set_wallpaper_missing_file_witness:
  "\<not> path_exists world0 [''does'', ''not'', ''exist.png''] \<and>
   fst (set_wallpaper cfg0 [''does'', ''not'', ''exist.png''] world0) = Inr False \<and>
   events (snd (set_wallpaper cfg0 [''does'', ''not'', ''exist.png''] world0)) = [] \<and>
   fs (snd (set_wallpaper cfg0 [''does'', ''not'', ''exist.png''] world0)) = fs0"
proof -
  have h: "\<not> path_exists world0 [''does'', ''not'', ''exist.png'']"
    by (simp add: prims world0_def fs0_def)
  show ?thesis
    using h set_wallpaper_missing_file [OF h, of cfg0] by (simp add: world0_def)
qed

subsection \<open>Theme propagation\<close>

lemma update_themes_events:
  "events (snd (update_themes a w)) =
     events w @
     (if \<not> which w ''wallust'' then []
      else if \<not> exits_ok w [S ''wallust'', S ''run'', a]
        then [Exec [S ''wallust'', S ''run'', a] False]
        else Exec [S ''wallust'', S ''run'', a] True # reload_events w)"
proof -
  note r1 = run_cmd_plain [of "S ''wallust''" "[S ''run'', a]", simplified]
  note r2 = run_cmd_plain [of "S ''systemctl''"
      "[S ''--user'', S ''restart'', S ''waybar.service'']", simplified]
  note r3 = run_cmd_plain [of "S ''makoctl''" "[S ''reload'']", simplified]
  show ?thesis
    unfolding update_themes_def Let_def reload_events_def
    by (simp add: split_beta r1 r2 r3)
qed

lemma update_themes_returns: "fst (update_themes a w) = Inr ()"
proof -
  note r1 = run_cmd_plain [of "S ''wallust''" "[S ''run'', a]", simplified]
  note r2 = run_cmd_plain [of "S ''systemctl''"
      "[S ''--user'', S ''restart'', S ''waybar.service'']", simplified]
  note r3 = run_cmd_plain [of "S ''makoctl''" "[S ''reload'']", simplified]
  show ?thesis
    unfolding update_themes_def Let_def
    by (simp add: split_beta r1 r2 r3)
qed

text \<open>
  C6. When \<open>wallust\<close> is not installed, or its run fails, \<open>update_themes\<close> returns with
  no reload run: the only invocation, if any, is the failed \<open>wallust\<close> run. When the
  palette run succeeds, the reloads follow it in the sequence of invocations.
\<close>

theorem update_themes_palette_first:
  "(\<not> which w ''wallust'' \<or> \<not> exits_ok w [S ''wallust'', S ''run'', a] \<longrightarrow>
      fst (update_themes a w) = Inr () \<and>
      events (snd (update_themes a w)) =
        events w @ (if which w ''wallust'' then [Exec [S ''wallust'', S ''run'', a] False] else [])) \<and>
   (which w ''wallust'' \<and> exits_ok w [S ''wallust'', S ''run'', a] \<longrightarrow>
      events (snd (update_themes a w)) =
        events w @ Exec [S ''wallust'', S ''run'', a] True # reload_events w)"
  by (simp add: update_themes_events update_themes_returns)

theorem update_themes_palette_first_witness:
  "events (snd (update_themes (S ''/x.png'') (world0\<lparr>programs := [''systemctl'', ''makoctl'']\<rparr>)))
     = [] \<and>
   events (snd (update_themes (S ''/x.png'') (world0\<lparr>exits_ok := (\<lambda>c. hd c \<noteq> S ''wallust'')\<rparr>)))
     = [Exec [S ''wallust'', S ''run'', S ''/x.png''] False] \<and>
   events (snd (update_themes (S ''/x.png'') world0))
     = [Exec [S ''wallust'', S ''run'', S ''/x.png''] True,
        Exec [S ''systemctl'', S ''--user'', S ''restart'', S ''waybar.service''] True,
        Exec [S ''makoctl'', S ''reload''] True]"
  using update_themes_palette_first [of "world0\<lparr>programs := [''systemctl'', ''makoctl'']\<rparr>"
      "S ''/x.png''"]
    update_themes_palette_first [of "world0\<lparr>exits_ok := (\<lambda>c. hd c \<noteq> S ''wallust'')\<rparr>"
      "S ''/x.png''"]
    update_themes_palette_first [of world0 "S ''/x.png''"]
  by (simp add: world0_def which_def reload_events_def)

subsection \<open>Selection\<close>

lemma is_file_key: "is_file w f \<Longrightarrow> f \<in> fst ` set (fs w)"
  by (auto simp: is_file_def lookup_def split: option.splits node.splits dest!: map_of_SomeD
      intro: rev_image_eqI)

lemma images_set:
  "set (images w d) =
     {f. strict_prefix d f \<and> is_file w f \<and> lower (path_suffix f) \<in> set extensions}"
  by (auto simp: images_def rglob_def dest: is_file_key)

text \<open>
  C9. The candidates of \<open>shuffle_wallpaper\<close> are exactly the regular files strictly below
  the resolved directory, at any depth, whose suffix, lower-cased, is \<open>.jpg\<close>, \<open>.jpeg\<close>
  or \<open>.png\<close>. With the directory present and no candidate the call returns \<open>False\<close> and
  runs nothing; otherwise it sets one of the candidates; with exactly one candidate it sets
  that one, whatever the random numbers are.
\<close>

theorem shuffle_wallpaper_selection:
  "set (images w (target_dir cfg category)) =
     {f. strict_prefix (target_dir cfg category) f \<and> is_file w f \<and>
         lower (path_suffix f) \<in> set extensions} \<and>
   (path_exists w (target_dir cfg category) \<and> images w (target_dir cfg category) = [] \<longrightarrow>
      fst (shuffle_wallpaper cfg category w) = Inr False \<and>
      events (snd (shuffle_wallpaper cfg category w)) = events w \<and>
      fs (snd (shuffle_wallpaper cfg category w)) = fs w) \<and>
   (path_exists w (target_dir cfg category) \<and> images w (target_dir cfg category) \<noteq> [] \<longrightarrow>
      (\<exists>chosen \<in> set (images w (target_dir cfg category)). \<exists>w'.
         shuffle_wallpaper cfg category w = set_wallpaper cfg chosen w' \<and>
         fs w' = fs w \<and> events w' = events w \<and> procs w' = procs w)) \<and>
   (\<forall>x. path_exists w (target_dir cfg category) \<and> images w (target_dir cfg category) = [x] \<longrightarrow>
      (\<exists>w'. shuffle_wallpaper cfg category w = set_wallpaper cfg x w' \<and>
         fs w' = fs w \<and> events w' = events w \<and> procs w' = procs w))"
proof -
  let ?d = "target_dir cfg category"
  let ?im = "images w ?d"
  let ?w' = "(if category = None then log_info ''Picking a random wallpaper...'' w
              else log_info (''Picking random wallpaper from '' @ opt_str category @ ''...'') w)
             \<lparr>rand_ix := Suc (rand_ix w)\<rparr>"
  have frame: "fs ?w' = fs w \<and> events ?w' = events w \<and> procs ?w' = procs w"
    by simp
  have pick: "shuffle_wallpaper cfg category w =
      set_wallpaper cfg (?im ! (rand w (rand_ix w) mod length ?im)) ?w'"
    if "path_exists w ?d" "?im \<noteq> []"
    using that
    by (cases category) (simp_all add: shuffle_wallpaper_def Let_def random_choice_def)
  have none: "fst (shuffle_wallpaper cfg category w) = Inr False \<and>
      events (snd (shuffle_wallpaper cfg category w)) = events w \<and>
      fs (snd (shuffle_wallpaper cfg category w)) = fs w"
    if "path_exists w ?d" "?im = []"
    using that by (cases category) (simp_all add: shuffle_wallpaper_def Let_def)
  have some: "\<exists>chosen \<in> set ?im. \<exists>w'.
         shuffle_wallpaper cfg category w = set_wallpaper cfg chosen w' \<and>
         fs w' = fs w \<and> events w' = events w \<and> procs w' = procs w"
    if h: "path_exists w ?d" "?im \<noteq> []"
  proof -
    from h have "?im ! (rand w (rand_ix w) mod length ?im) \<in> set ?im" by simp
    with pick [OF h] frame show ?thesis by blast
  qed
  have one: "\<exists>w'. shuffle_wallpaper cfg category w = set_wallpaper cfg x w' \<and>
         fs w' = fs w \<and> events w' = events w \<and> procs w' = procs w"
    if h: "path_exists w ?d" "?im = [x]" for x
  proof -
    from h have "?im \<noteq> []" by simp
    from pick [OF h(1) this] h(2) have
      "shuffle_wallpaper cfg category w = set_wallpaper cfg x ?w'" by simp
    with frame show ?thesis by blast
  qed
  from none some one show ?thesis
    by (simp only: images_set) blast
qed

lemma target_dir_space:
  "target_dir cfg0 (Some ''space'') = [''home'', ''u'', ''Pictures'', ''wallpaper'', ''space'']"
  by (simp add: target_dir_def path_join_def path_parts_def cfg0_def WALLPAPER_DIR_def)

lemma images_space:
  "images (world0\<lparr>rand := r\<rparr>) [''home'', ''u'', ''Pictures'', ''wallpaper'', ''space'']
   = [a_png]"
  by (simp add: a_png_def images_def rglob_def world0_def fs0_def is_file_def lookup_def path_suffix_def
      path_name_def lower_def lower_char_def extensions_def Let_def)

lemma images_no_png:
  "images (world0\<lparr>fs := butlast (butlast fs0) @ [last fs0]\<rparr>)
     [''home'', ''u'', ''Pictures'', ''wallpaper'', ''space''] = []"
  by (simp add: images_def rglob_def world0_def fs0_def is_file_def lookup_def path_suffix_def
      path_name_def lower_def lower_char_def extensions_def Let_def)

text \<open>
  In the category \<open>space\<close>, which holds \<open>a.png\<close> and \<open>b.txt\<close>, every random sequence
  selects \<open>a.png\<close>; with \<open>a.png\<close> removed the call fails.
\<close>

theorem shuffle_wallpaper_selection_witness:
  "(\<forall>r. path_exists (world0\<lparr>rand := r\<rparr>) (target_dir cfg0 (Some ''space'')) \<and>
        images (world0\<lparr>rand := r\<rparr>) (target_dir cfg0 (Some ''space'')) =
          [a_png] \<and>
        (\<exists>w'. shuffle_wallpaper cfg0 (Some ''space'') (world0\<lparr>rand := r\<rparr>) =
                 set_wallpaper cfg0 a_png w' \<and>
               fs w' = fs0 \<and> events w' = [] \<and> procs w' = [])) \<and>
   fst (shuffle_wallpaper cfg0 (Some ''space'')
          (world0\<lparr>fs := butlast (butlast fs0) @ [last fs0]\<rparr>)) = Inr False"
proof -
  have ex: "path_exists (world0\<lparr>rand := r\<rparr>) (target_dir cfg0 (Some ''space''))" for r
    by (simp add: target_dir_space) (simp add: prims world0_def fs0_def)
  have ex2: "path_exists (world0\<lparr>fs := butlast (butlast fs0) @ [last fs0]\<rparr>)
      (target_dir cfg0 (Some ''space''))"
    by (simp add: target_dir_space) (simp add: prims world0_def fs0_def)
  have a: "path_exists (world0\<lparr>rand := r\<rparr>) (target_dir cfg0 (Some ''space'')) \<and>
        images (world0\<lparr>rand := r\<rparr>) (target_dir cfg0 (Some ''space'')) =
          [a_png] \<and>
        (\<exists>w'. shuffle_wallpaper cfg0 (Some ''space'') (world0\<lparr>rand := r\<rparr>) =
                 set_wallpaper cfg0 a_png w' \<and>
               fs w' = fs0 \<and> events w' = [] \<and> procs w' = [])" for r
    using shuffle_wallpaper_selection [of "world0\<lparr>rand := r\<rparr>" cfg0 "Some ''space''"] ex [of r]
      images_space [of r]
    by (simp add: target_dir_space) (simp add: world0_def)
  have b: "fst (shuffle_wallpaper cfg0 (Some ''space'')
          (world0\<lparr>fs := butlast (butlast fs0) @ [last fs0]\<rparr>)) = Inr False"
    using shuffle_wallpaper_selection [of "world0\<lparr>fs := butlast (butlast fs0) @ [last fs0]\<rparr>"
        cfg0 "Some ''space''"] ex2 images_no_png
    by (simp add: target_dir_space)
  from a b show ?thesis by blast
qed

subsection \<open>The automation loop\<close>

lemma loop_failure_exits:
  assumes "\<not> is_dir w (PID_FILE cfg)"
  shows "fst (loop_failure cfg w) = Inl (SystemExit 1)"
    and "\<not> path_exists (snd (loop_failure cfg w)) (PID_FILE cfg)"
    and "events (snd (loop_failure cfg w)) =
           events w @ notify_events ''Automation stopped.'' ''Error setting wallpaper'' w"
    and "procs (snd (loop_failure cfg w)) = procs w"
  using assms
  by (auto simp: loop_failure_def notify_plain unlink_missing_ok_def prims delete_conv'
      split: option.splits node.splits)

lemma iter_start_same:
  "iter_start cfg interval category w wk \<Longrightarrow>
   automation_loop cfg interval category w = automation_loop cfg interval category wk"
proof (induction rule: iter_start.induct)
  case first
  show ?case by simp
next
  case (later wk w1 w2)
  have "automation_loop cfg interval category wk = automation_loop cfg interval category w2"
    by (subst automation_loop.simps) (simp add: later.hyps)
  with later.IH show ?case by simp
qed

text \<open>
  C7. Whenever an iteration of the loop finds \<open>shuffle_wallpaper\<close> returning \<open>False\<close>, the
  loop ends there with \<open>sys.exit(1)\<close>: after that iteration it has only called \<open>notify\<close>
  (which runs \<open>notify-send\<close> when installed) and removed the pid record; it neither sleeps
  nor selects again. The record is taken not to be a directory.
\<close>

theorem automation_loop_stops_on_failure:
  assumes "iter_start cfg interval category w wk"
    and "fst (shuffle_wallpaper cfg category wk) = Inr False"
    and "\<not> is_dir (snd (shuffle_wallpaper cfg category wk)) (PID_FILE cfg)"
  shows "\<exists>w'. automation_loop cfg interval category w = Some (Inl (SystemExit 1), w') \<and>
              \<not> path_exists w' (PID_FILE cfg) \<and>
              events w' = events (snd (shuffle_wallpaper cfg category wk))
                          @ notify_events ''Automation stopped.'' ''Error setting wallpaper''
                              (snd (shuffle_wallpaper cfg category wk)) \<and>
              procs w' = procs (snd (shuffle_wallpaper cfg category wk))"
proof -
  let ?w1 = "snd (shuffle_wallpaper cfg category wk)"
  have "automation_loop cfg interval category wk = Some (loop_failure cfg ?w1)"
    by (subst automation_loop.simps) (simp add: assms(2) split_beta)
  with iter_start_same [OF assms(1)]
  have "automation_loop cfg interval category w =
      Some (fst (loop_failure cfg ?w1), snd (loop_failure cfg ?w1))"
    by simp
  with loop_failure_exits [OF assms(3)] show ?thesis by simp
qed

lemma first_iteration:
  "fst (shuffle_wallpaper cfg0 (Some ''space'') (world0\<lparr>ambient := (\<lambda>n f. [])\<rparr>)) = Inr True"
  "ambient (snd (shuffle_wallpaper cfg0 (Some ''space'') (world0\<lparr>ambient := (\<lambda>n f. [])\<rparr>)))
     (naps (snd (shuffle_wallpaper cfg0 (Some ''space'') (world0\<lparr>ambient := (\<lambda>n f. [])\<rparr>))))
     (fs (snd (shuffle_wallpaper cfg0 (Some ''space'') (world0\<lparr>ambient := (\<lambda>n f. [])\<rparr>)))) = []"
  by code_simp+

text \<open>
  A run whose first iteration succeeds; during its sleep every file is removed, and the
  second iteration fails and ends the loop.
\<close>

theorem automation_loop_stops_on_failure_witness:
  "\<exists>w'. automation_loop cfg0 5 (Some ''space'') (world0\<lparr>ambient := (\<lambda>n f. [])\<rparr>) =
          Some (Inl (SystemExit 1), w') \<and>
        \<not> path_exists w' (PID_FILE cfg0) \<and>
        Sleep 5 \<in> set (events w')"
proof -
  let ?wA = "world0\<lparr>ambient := (\<lambda>n f. [])\<rparr>"
  define w1 where "w1 = snd (shuffle_wallpaper cfg0 (Some ''space'') ?wA)"
  define w2 where "w2 = w1\<lparr>fs := ambient w1 (naps w1) (fs w1), naps := Suc (naps w1),
                            events := events w1 @ [Sleep 5]\<rparr>"
  have s1: "shuffle_wallpaper cfg0 (Some ''space'') ?wA = (Inr True, w1)"
    using first_iteration(1) by (simp add: w1_def prod_eq_iff)
  have s2: "time_sleep 5 w1 = Inr w2"
    by (simp add: time_sleep_def w2_def)
  have empty: "fs w2 = []"
    using first_iteration(2) by (simp add: w2_def w1_def)
  have it: "iter_start cfg0 5 (Some ''space'') ?wA w2"
    by (rule iter_start.later [OF iter_start.first s1 s2])
  have fail: "shuffle_wallpaper cfg0 (Some ''space'') w2 =
      (Inr False, log_error (''Category not found: space'') w2)"
    using empty by (simp add: shuffle_wallpaper_def prims opt_str_def)
  have f1: "fst (shuffle_wallpaper cfg0 (Some ''space'') w2) = Inr False"
    by (simp add: fail)
  have f2: "\<not> is_dir (snd (shuffle_wallpaper cfg0 (Some ''space'') w2)) (PID_FILE cfg0)"
    using empty by (simp add: fail prims)
  have "Sleep 5 \<in> set (events (snd (shuffle_wallpaper cfg0 (Some ''space'') w2)))"
    by (simp add: fail) (simp add: w2_def)
  with automation_loop_stops_on_failure [OF it f1 f2] show ?thesis
    by auto
qed

subsection \<open>Integers as text\<close>

lemma digit_char_facts:
  assumes "d < 10"
  shows "is_digit (digit_char d)" "digit_val (digit_char d) = d" "\<not> isspace (digit_char d)"
    "digit_char d \<noteq> CHR ''_''" "digit_char d \<noteq> CHR ''-''" "digit_char d \<noteq> CHR ''+''"
  using assms
  by (auto simp: is_digit_def digit_val_def isspace_def digit_char_def Let_def
      dest!: arg_cong [where f = "of_char :: char \<Rightarrow> nat"])

lemma is_digit_facts:
  "is_digit c \<Longrightarrow> \<not> isspace c \<and> c \<noteq> CHR ''_'' \<and> c \<noteq> CHR ''-'' \<and> c \<noteq> CHR ''+''"
  by (auto simp: is_digit_def isspace_def Let_def)

lemma dec_digits: "c \<in> set (dec n) \<Longrightarrow> is_digit c"
proof (induction n arbitrary: c rule: dec.induct)
  case (1 n)
  show ?case
  proof (cases "n < 10")
    case True
    with "1.prems" show ?thesis
      by (subst (asm) dec.simps) (simp add: digit_char_facts)
  next
    case False
    with "1.prems" "1.IH" show ?thesis
      by (subst (asm) dec.simps) (auto simp: digit_char_facts)
  qed
qed

lemma dec_nonempty: "dec n \<noteq> []"
  by (subst dec.simps) simp

lemma underscores_ok_digits: "\<forall>c \<in> set s. c \<noteq> CHR ''_'' \<Longrightarrow> underscores_ok s"
  by (induction s rule: underscores_ok.induct) auto

lemma literal_ok_digits: "s \<noteq> [] \<Longrightarrow> \<forall>c \<in> set s. is_digit c \<Longrightarrow> literal_ok s"
  using is_digit_facts
  by (auto simp: literal_ok_def list_all_iff intro!: underscores_ok_digits)

lemma literal_val_dec: "literal_val (dec n) = n"
proof (induction n rule: dec.induct)
  case (1 n)
  have all: "filter is_digit (dec m) = dec m" for m
    by (simp add: dec_digits)
  show ?case
  proof (cases "n < 10")
    case True
    then show ?thesis
      by (subst dec.simps) (simp add: literal_val_def digit_char_facts)
  next
    case False
    with "1.IH" have "literal_val (dec (n div 10)) = n div 10" by simp
    with False show ?thesis
      by (subst dec.simps) (simp add: literal_val_def all digit_char_facts)
  qed
qed

lemma strip_id: "s \<noteq> [] \<Longrightarrow> \<not> isspace (hd s) \<Longrightarrow> \<not> isspace (last s) \<Longrightarrow> strip s = s"
  by (cases s) (auto simp: strip_def dropWhile_eq_self_iff hd_rev  split: if_splits)

lemma py_int_py_str: "py_int (strip (py_str n)) = Some n"
proof (cases "n < 0")
  case True
  let ?d = "dec (nat (- n))"
  have d: "?d \<noteq> []" "\<forall>c \<in> set ?d. is_digit c"
    by (simp_all add: dec_nonempty dec_digits)
  then have "\<not> isspace (last ?d)" by (simp add: is_digit_facts)
  then have "strip (CHR ''-'' # ?d) = CHR ''-'' # ?d"
    using d by (intro strip_id) (simp_all add: isspace_def)
  with True d show ?thesis
    by (simp add: py_int_def py_str_def strip_id literal_ok_digits literal_val_dec)
next
  case False
  let ?d = "dec (nat n)"
  have d: "?d \<noteq> []" "\<forall>c \<in> set ?d. is_digit c"
    by (simp_all add: dec_nonempty dec_digits)
  then obtain c r where cr: "?d = c # r" by (cases ?d) auto
  with d have c: "is_digit c" "is_digit (last ?d)" by auto
  then have "strip ?d = ?d"
    using d(1) cr by (intro strip_id) (auto simp: is_digit_facts)
  moreover have "literal_ok ?d" using d by (rule literal_ok_digits)
  moreover have "int (literal_val ?d) = n" using False by (simp add: literal_val_dec)
  ultimately show ?thesis
    using False c(1) is_digit_facts [of c] by (simp add: py_int_def py_str_def cr)
qed

subsection \<open>Starting and stopping the automation\<close>

lemma fresh_pid_Max: "fresh_pid ps = Max (set (0 # map fst ps)) + 1"
  unfolding fresh_pid_def by (simp only: Max.set_eq_fold)

lemma fresh_pid_gt: "e \<in> set ps \<Longrightarrow> fst e < fresh_pid ps"
proof -
  assume "e \<in> set ps"
  then have "fst e \<in> set (0 # map fst ps)" by auto
  then have "fst e \<le> Max (set (0 # map fst ps))" by (intro Max_ge) auto
  then show ?thesis by (simp only: fresh_pid_Max)
qed

lemma fresh_pid_pos: "0 < fresh_pid ps"
proof -
  have "0 \<le> Max (set (0 # map fst ps))" by (intro Max_ge) auto
  then show ?thesis by (simp only: fresh_pid_Max)
qed

lemma fresh_pid_le: "0 \<le> B \<Longrightarrow> \<forall>e \<in> set ps. fst e \<le> B \<Longrightarrow> fresh_pid ps \<le> B + 1"
proof -
  assume "0 \<le> B" "\<forall>e \<in> set ps. fst e \<le> B"
  then have "Max (set (0 # map fst ps)) \<le> B" by (subst Max_le_iff) auto
  then show ?thesis by (simp only: fresh_pid_Max)
qed

lemma fresh_pid_unused: "map_of ps (fresh_pid ps) = None"
  using fresh_pid_gt [of _ ps] by (force simp: map_of_eq_None_iff)

lemma is_loop_loop_args [simp]:
  "is_loop cfg \<lparr>cmd = loop_args cfg interval category, foreign = f, traps_term = t\<rparr>"
  by (simp add: is_loop_def loop_args_def)

lemma PID_FILE_parent [simp]:
  "butlast (PID_FILE cfg) = CACHE_DIR cfg" "PID_FILE cfg \<noteq> []" "CACHE_DIR cfg \<noteq> PID_FILE cfg"
  by (simp_all add: PID_FILE_def)

lemma popen_loop:
  "which w (executable cfg) \<Longrightarrow>
   popen (loop_args cfg interval category) w =
     (Inr (fresh_pid (procs w)),
      w\<lparr>procs := procs w @ [(fresh_pid (procs w), \<lparr>cmd = loop_args cfg interval category,
                                                  foreign = False, traps_term = False\<rparr>)],
        events := events w @ [Spawn (loop_args cfg interval category) (fresh_pid (procs w))]\<rparr>)"
  by (simp add: popen_def loop_args_def Let_def)

text \<open>The second phase of a start, from a world without a record.\<close>

lemma spawn_phase:
  assumes "lookup w (PID_FILE cfg) = None" "start_env cfg w" "0 < interval"
  shows "fst (manage_automation cfg interval category w) = Inr ()"
    and "procs (snd (manage_automation cfg interval category w)) =
           procs w @ [(fresh_pid (procs w), \<lparr>cmd = loop_args cfg interval category,
                                            foreign = False, traps_term = False\<rparr>)]"
    and "fs (snd (manage_automation cfg interval category w)) =
           AList.update (PID_FILE cfg) (File (py_str (fresh_pid (procs w)))) (fs w)"
    and "events (snd (manage_automation cfg interval category w)) =
           events w @ Spawn (loop_args cfg interval category) (fresh_pid (procs w))
           # notify_events (''Wallpaper will change every '' @ py_str interval @ '' seconds'') [] w"
    and "programs (snd (manage_automation cfg interval category w)) = programs w"
  using assms
  by (simp_all add: manage_automation_def popen_loop start_env_def
      Let_def write_text_def write_file_def notify_plain notify_events_def prims)

lemma set_delete_subset: "set (AList.delete k al) \<subseteq> set al"
  by (auto simp: AList.delete_eq)

lemma delete_keys: "e \<in> set (AList.delete k al) \<Longrightarrow> fst e \<noteq> k"
  by (auto simp: AList.delete_eq)

lemma clear_phase:
  assumes "record_sound cfg w"
  shows "\<exists>wc. manage_automation cfg interval category w =
               manage_automation cfg interval category wc \<and>
             lookup wc (PID_FILE cfg) = None \<and> loop_pids cfg wc = [] \<and>
             events wc = events w @ signal_events cfg w \<and>
             programs wc = programs w \<and> exits_ok wc = exits_ok w \<and>
             (\<forall>q. q \<noteq> PID_FILE cfg \<longrightarrow> lookup wc q = lookup w q) \<and>
             set (procs wc) \<subseteq> set (procs w)"
proof (cases "lookup w (PID_FILE cfg)")
  case None
  with assms have "loop_pids cfg w = []"
    by (simp add: record_sound_def recorded_pid_def)
  with None show ?thesis
    by (intro exI [of _ w]) (simp add: signal_events_def recorded_pid_def)
next
  case (Some n)
  with assms obtain c where c: "lookup w (PID_FILE cfg) = Some (File c)"
    by (cases n) (auto simp: record_sound_def is_dir_def)
  let ?log = "log_info ''Cleaning abandoned automation file'' w"
  show ?thesis
  proof (cases "py_int (strip c)")
    case None
    let ?wc = "?log\<lparr>fs := AList.delete (PID_FILE cfg) (fs w)\<rparr>"
    from None c assms have l: "loop_pids cfg w = []"
      by (simp add: record_sound_def recorded_pid_def)
    have "manage_automation cfg interval category w = manage_automation cfg interval category ?wc"
      using None c
      by (simp add: manage_automation_def kill_recorded_def read_text_def
          unlink_missing_ok_def prims delete_conv')
    moreover have "loop_pids cfg ?wc = []" using l by (simp add: loop_pids_def)
    ultimately show ?thesis
      using None c
      by (intro exI [of _ ?wc]) (simp add: signal_events_def recorded_pid_def prims delete_conv')
  next
    case (Some pid)
    with c assms have rs: "0 < pid" "pid < 2 ^ 31"
      "\<forall>e \<in> set (procs w). is_loop cfg (snd e) \<longrightarrow> fst e = pid"
      by (simp_all add: record_sound_def recorded_pid_def)
    show ?thesis
    proof (cases "map_of (procs w) pid")
      case None
      let ?wc = "?log\<lparr>fs := AList.delete (PID_FILE cfg) (fs w)\<rparr>"
      from None rs(3) have "\<forall>e \<in> set (procs w). \<not> is_loop cfg (snd e)"
        by (force simp: map_of_eq_None_iff)
      then have l: "loop_pids cfg ?wc = []" by (simp add: loop_pids_def filter_empty_conv)
      have "manage_automation cfg interval category w =
            manage_automation cfg interval category ?wc"
        using None Some c rs(1,2)
        by (simp add: manage_automation_def kill_recorded_def read_text_def os_kill_def
            unlink_missing_ok_def prims delete_conv')
      with l show ?thesis
        using None Some c
        by (intro exI [of _ ?wc])
          (simp add: signal_events_def recorded_pid_def prims delete_conv')
    next
      case (Some p)
      with \<open>py_int (strip c) = Some pid\<close> c assms have p: "\<not> foreign p" "\<not> traps_term p"
        by (simp_all add: record_sound_def recorded_pid_def)
      let ?wk = "w\<lparr>procs := AList.delete pid (procs w), events := events w @ [Signal pid]\<rparr>"
      let ?wc = "(log_info (''Existing wallpaper automation stopped (pid: ''
                            @ py_str pid @ '')'') ?wk)
                 \<lparr>fs := AList.delete (PID_FILE cfg) (fs w)\<rparr>"
      have "\<forall>e \<in> set (AList.delete pid (procs w)). \<not> is_loop cfg (snd e)"
        using rs(3) set_delete_subset [of pid "procs w"] delete_keys [of _ pid "procs w"]
        by blast
      then have l: "loop_pids cfg ?wc = []" by (simp add: loop_pids_def filter_empty_conv)
      have "manage_automation cfg interval category w =
            manage_automation cfg interval category ?wc"
        using Some \<open>py_int (strip c) = Some pid\<close> c rs(1,2) p
        by (simp add: manage_automation_def kill_recorded_def read_text_def os_kill_def
            unlink_missing_ok_def prims delete_conv')
      with l show ?thesis
        using Some \<open>py_int (strip c) = Some pid\<close> c set_delete_subset [of pid "procs w"]
        by (intro exI [of _ ?wc])
          (simp add: signal_events_def recorded_pid_def prims delete_conv')
    qed
  qed
qed

lemma notify_events_cong:
  "programs w' = programs w \<Longrightarrow> exits_ok w' = exits_ok w \<Longrightarrow>
   notify_events s b w' = notify_events s b w"
  by (simp add: notify_events_def which_def)

lemma start_step:
  assumes rs: "record_sound cfg w" and env: "start_env cfg w" and pos: "0 < interval"
    and B: "0 \<le> B" "\<forall>e \<in> set (procs w). fst e \<le> B" "B + 1 < 2 ^ 31"
  shows "\<exists>new. fst (manage_automation cfg interval category w) = Inr () \<and>
     loop_pids cfg (snd (manage_automation cfg interval category w)) = [new] \<and>
     lookup (snd (manage_automation cfg interval category w)) (PID_FILE cfg) =
       Some (File (py_str new)) \<and>
     map_of (procs (snd (manage_automation cfg interval category w))) new =
       Some \<lparr>cmd = loop_args cfg interval category, foreign = False, traps_term = False\<rparr> \<and>
     events (snd (manage_automation cfg interval category w)) =
       events w @ signal_events cfg w @ Spawn (loop_args cfg interval category) new
       # notify_events (''Wallpaper will change every '' @ py_str interval @ '' seconds'') [] w \<and>
     record_sound cfg (snd (manage_automation cfg interval category w)) \<and>
     start_env cfg (snd (manage_automation cfg interval category w)) \<and>
     (\<forall>e \<in> set (procs (snd (manage_automation cfg interval category w))). fst e \<le> B + 1)"
proof -
  from clear_phase [OF rs, of interval category] obtain wc where
    eq: "manage_automation cfg interval category w = manage_automation cfg interval category wc"
    and norec: "lookup wc (PID_FILE cfg) = None" and noloop: "loop_pids cfg wc = []"
    and ev: "events wc = events w @ signal_events cfg w"
    and pr: "programs wc = programs w" and ex: "exits_ok wc = exits_ok w"
    and frame: "\<forall>q. q \<noteq> PID_FILE cfg \<longrightarrow> lookup wc q = lookup w q"
    and sub: "set (procs wc) \<subseteq> set (procs w)"
    by blast
  let ?new = "fresh_pid (procs wc)"
  let ?p = "\<lparr>cmd = loop_args cfg interval category, foreign = False, traps_term = False\<rparr>"
  let ?w' = "snd (manage_automation cfg interval category wc)"
  from env pr frame have envc: "start_env cfg wc"
    by (simp add: start_env_def which_def is_dir_def)
  note sp = spawn_phase [OF norec envc pos, of category]
  have procs': "procs ?w' = procs wc @ [(?new, ?p)]" by (rule sp(2))
  have fs': "fs ?w' = AList.update (PID_FILE cfg) (File (py_str ?new)) (fs wc)" by (rule sp(3))
  have lk: "lookup ?w' q = (if q = PID_FILE cfg then Some (File (py_str ?new)) else lookup wc q)"
    for q by (simp add: lookup_def fs' update_conv')
  have new_le: "?new \<le> B + 1"
    using B sub by (intro fresh_pid_le) auto
  have l': "loop_pids cfg ?w' = [?new]"
    using noloop by (simp add: loop_pids_def procs')
  have m': "map_of (procs ?w') ?new = Some ?p"
    by (simp add: procs' map_add_def fresh_pid_unused)
  have only: "\<forall>e \<in> set (procs ?w'). is_loop cfg (snd e) \<longrightarrow> fst e = ?new"
    using noloop by (auto simp: procs' loop_pids_def filter_empty_conv)
  have rs': "record_sound cfg ?w'"
    using new_le B(3) fresh_pid_pos [of "procs wc"] only m'
    by (simp add: record_sound_def recorded_pid_def is_dir_def lk py_int_py_str)
  have env': "start_env cfg ?w'"
    using envc by (simp add: start_env_def which_def sp(5) is_dir_def lk)
  have bound: "\<forall>e \<in> set (procs ?w'). fst e \<le> B + 1"
  proof
    fix e assume "e \<in> set (procs ?w')"
    then have "e \<in> set (procs w) \<or> fst e = ?new" using sub by (auto simp: procs')
    with new_le B show "fst e \<le> B + 1" by force
  qed
  have ev': "events ?w' = events w @ signal_events cfg w @ Spawn (loop_args cfg interval category) ?new
       # notify_events (''Wallpaper will change every '' @ py_str interval @ '' seconds'') [] w"
    by (simp add: sp(4) ev notify_events_cong [OF pr ex])
  show ?thesis
    unfolding eq
    using sp(1) l' lk [of "PID_FILE cfg"] m' ev' rs' env' bound
    by (intro exI [of _ ?new]) simp
qed

lemma starts_ok:
  assumes "record_sound cfg w" "start_env cfg w" "\<forall>op \<in> set ops. 0 < fst op"
    and "0 \<le> B" "\<forall>e \<in> set (procs w). fst e \<le> B" "B + int (length ops) < 2 ^ 31"
  shows "fst (starts cfg ops w) = Inr () \<and>
     (ops \<noteq> [] \<longrightarrow>
       (\<exists>new. loop_pids cfg (snd (starts cfg ops w)) = [new] \<and>
          lookup (snd (starts cfg ops w)) (PID_FILE cfg) = Some (File (py_str new)) \<and>
          map_of (procs (snd (starts cfg ops w))) new =
            Some \<lparr>cmd = loop_args cfg (fst (last ops)) (snd (last ops)),
                  foreign = False, traps_term = False\<rparr>))"
  using assms
proof (induction ops arbitrary: w B)
  case Nil
  show ?case by simp
next
  case (Cons op ops)
  let ?r = "manage_automation cfg (fst op) (snd op) w"
  from Cons.prems have pos: "0 < fst op" and B1: "B + 1 < 2 ^ 31" by auto
  from start_step [OF Cons.prems(1,2) pos Cons.prems(4,5) B1, of "snd op"]
  obtain new where st: "fst ?r = Inr ()" "loop_pids cfg (snd ?r) = [new]"
    "lookup (snd ?r) (PID_FILE cfg) = Some (File (py_str new))"
    "map_of (procs (snd ?r)) new =
       Some \<lparr>cmd = loop_args cfg (fst op) (snd op), foreign = False, traps_term = False\<rparr>"
    "record_sound cfg (snd ?r)" "start_env cfg (snd ?r)"
    "\<forall>e \<in> set (procs (snd ?r)). fst e \<le> B + 1"
    by blast
  have unfold: "starts cfg (op # ops) w = starts cfg ops (snd ?r)"
    using st(1) by (simp add: split_beta)
  show ?case
  proof (cases "ops = []")
    case True
    show ?thesis unfolding unfold using True st by simp
  next
    case False
    have "fst (starts cfg ops (snd ?r)) = Inr () \<and>
     (ops \<noteq> [] \<longrightarrow>
       (\<exists>new. loop_pids cfg (snd (starts cfg ops (snd ?r))) = [new] \<and>
          lookup (snd (starts cfg ops (snd ?r))) (PID_FILE cfg) = Some (File (py_str new)) \<and>
          map_of (procs (snd (starts cfg ops (snd ?r)))) new =
            Some \<lparr>cmd = loop_args cfg (fst (last ops)) (snd (last ops)),
                  foreign = False, traps_term = False\<rparr>))"
      using Cons.prems st(5,6,7) by (intro Cons.IH [of "snd ?r" "B + 1"]) auto
    then show ?thesis unfolding unfold using False by simp
  qed
qed

text \<open>
  C2. Let the record and the process table agree. A start (\<open>interval > 0\<close>) behaves as
  the same start from a world \<open>wc\<close> that has no record and no live loop, reached by
  sending SIGTERM to the live process the record named: termination and removal come
  before the spawn. It returns, exactly one loop is then alive, the record holds its pid,
  and record and table agree again. Hence after any non-empty sequence of starts, two in
  particular, exactly one loop is alive, the record names it, and it is the loop of the
  last start.
\<close>

theorem start_supersedes_previous:
  assumes "record_sound cfg w" and "start_env cfg w"
    and "0 \<le> B" and "\<forall>e \<in> set (procs w). fst e \<le> B" and "B + 1 + int (length ops) < 2 ^ 31"
    and "0 < interval" and "\<forall>op \<in> set ops. 0 < fst op"
  shows "(\<exists>wc. lookup wc (PID_FILE cfg) = None \<and> loop_pids cfg wc = [] \<and>
            events wc = events w @ signal_events cfg w \<and>
            manage_automation cfg interval category w =
              manage_automation cfg interval category wc) \<and>
     (\<exists>new. fst (manage_automation cfg interval category w) = Inr () \<and>
        loop_pids cfg (snd (manage_automation cfg interval category w)) = [new] \<and>
        lookup (snd (manage_automation cfg interval category w)) (PID_FILE cfg) =
          Some (File (py_str new)) \<and>
        map_of (procs (snd (manage_automation cfg interval category w))) new =
          Some \<lparr>cmd = loop_args cfg interval category, foreign = False, traps_term = False\<rparr> \<and>
        events (snd (manage_automation cfg interval category w)) =
          events w @ signal_events cfg w @ Spawn (loop_args cfg interval category) new
          # notify_events (''Wallpaper will change every '' @ py_str interval @ '' seconds'') [] w \<and>
        record_sound cfg (snd (manage_automation cfg interval category w))) \<and>
     fst (starts cfg ops w) = Inr () \<and>
     (ops \<noteq> [] \<longrightarrow>
       (\<exists>new. loop_pids cfg (snd (starts cfg ops w)) = [new] \<and>
          lookup (snd (starts cfg ops w)) (PID_FILE cfg) = Some (File (py_str new)) \<and>
          map_of (procs (snd (starts cfg ops w))) new =
            Some \<lparr>cmd = loop_args cfg (fst (last ops)) (snd (last ops)),
                  foreign = False, traps_term = False\<rparr>))"
proof -
  from assms(5) have B1: "B + 1 < 2 ^ 31" and Bn: "B + int (length ops) < 2 ^ 31" by auto
  from clear_phase [OF assms(1), of interval category]
  have a: "\<exists>wc. lookup wc (PID_FILE cfg) = None \<and> loop_pids cfg wc = [] \<and>
            events wc = events w @ signal_events cfg w \<and>
            manage_automation cfg interval category w =
              manage_automation cfg interval category wc"
    by blast
  from start_step [OF assms(1,2,6,3,4) B1, of category]
  have b: "\<exists>new. fst (manage_automation cfg interval category w) = Inr () \<and>
        loop_pids cfg (snd (manage_automation cfg interval category w)) = [new] \<and>
        lookup (snd (manage_automation cfg interval category w)) (PID_FILE cfg) =
          Some (File (py_str new)) \<and>
        map_of (procs (snd (manage_automation cfg interval category w))) new =
          Some \<lparr>cmd = loop_args cfg interval category, foreign = False, traps_term = False\<rparr> \<and>
        events (snd (manage_automation cfg interval category w)) =
          events w @ signal_events cfg w @ Spawn (loop_args cfg interval category) new
          # notify_events (''Wallpaper will change every '' @ py_str interval @ '' seconds'') [] w \<and>
        record_sound cfg (snd (manage_automation cfg interval category w))"
    by blast
  from starts_ok [OF assms(1,2,7,3,4) Bn] a b show ?thesis by blast
qed

lemma world0_sound: "record_sound cfg0 world0" "start_env cfg0 world0"
  by (simp_all add: record_sound_def recorded_pid_def start_env_def loop_pids_def prims world0_def
      fs0_def PID_FILE_def CACHE_DIR_def XDG_CACHE_def cfg0_def)

text \<open>\<open>auto 5\<close> followed by \<open>auto 10 space\<close> in the concrete installation.\<close>

theorem start_supersedes_previous_witness:
  "record_sound cfg0 world0 \<and> start_env cfg0 world0 \<and>
   fst (starts cfg0 [(5, None), (10, Some ''space'')] world0) = Inr () \<and>
   (\<exists>new. loop_pids cfg0 (snd (starts cfg0 [(5, None), (10, Some ''space'')] world0)) = [new] \<and>
      lookup (snd (starts cfg0 [(5, None), (10, Some ''space'')] world0)) (PID_FILE cfg0) =
        Some (File (py_str new)) \<and>
      map_of (procs (snd (starts cfg0 [(5, None), (10, Some ''space'')] world0))) new =
        Some \<lparr>cmd = loop_args cfg0 10 (Some ''space''), foreign = False, traps_term = False\<rparr>)"
proof -
  have p: "\<forall>e \<in> set (procs world0). fst e \<le> 0" by (simp add: world0_def)
  have "(0::int) \<le> 0" "(0::int) + 1 + int (length [(5::int, None), (10, Some ''space'')]) < 2 ^ 31"
    "(0::int) < 5" "\<forall>op \<in> set [(5::int, None :: string option), (10, Some ''space'')]. 0 < fst op"
    by simp_all
  from start_supersedes_previous [OF world0_sound this(1) p this(2-4), of None] world0_sound
  show ?thesis by simp
qed

text \<open>
  C8. Let the record be a file whose text is not an integer, or is the pid of no live
  process. Then \<open>manage_automation\<close>, for a start as for a stop, raises nothing, sends no
  signal, and behaves as it does from the same world without the record: a stop leaves no
  record and the process table as it was; a start spawns one loop and records its pid.
\<close>

theorem manage_automation_stale_record:
  assumes "lookup w (PID_FILE cfg) = Some (File c)"
    and "py_int (strip c) = None \<or>
         (\<exists>pid. py_int (strip c) = Some pid \<and> 0 < pid \<and> pid < 2 ^ 31 \<and>
                map_of (procs w) pid = None)"
    and "0 < interval \<longrightarrow> start_env cfg w"
  shows "manage_automation cfg interval category w =
           manage_automation cfg interval category
             ((log_info ''Cleaning abandoned automation file'' w)
                \<lparr>fs := AList.delete (PID_FILE cfg) (fs w)\<rparr>) \<and>
         fst (manage_automation cfg interval category w) = Inr () \<and>
         (interval \<le> 0 \<longrightarrow>
            lookup (snd (manage_automation cfg interval category w)) (PID_FILE cfg) = None \<and>
            procs (snd (manage_automation cfg interval category w)) = procs w \<and>
            events (snd (manage_automation cfg interval category w)) =
              events w @ notify_events ''Wallpaper automation stopped'' [] w) \<and>
         (0 < interval \<longrightarrow>
            lookup (snd (manage_automation cfg interval category w)) (PID_FILE cfg) =
              Some (File (py_str (fresh_pid (procs w)))) \<and>
            procs (snd (manage_automation cfg interval category w)) =
              procs w @ [(fresh_pid (procs w), \<lparr>cmd = loop_args cfg interval category,
                                                 foreign = False, traps_term = False\<rparr>)] \<and>
            events (snd (manage_automation cfg interval category w)) =
              events w @ Spawn (loop_args cfg interval category) (fresh_pid (procs w))
              # notify_events (''Wallpaper will change every '' @ py_str interval @ '' seconds'')
                  [] w)"
proof -
  let ?wc = "(log_info ''Cleaning abandoned automation file'' w)
                \<lparr>fs := AList.delete (PID_FILE cfg) (fs w)\<rparr>"
  have eq: "manage_automation cfg interval category w = manage_automation cfg interval category ?wc"
    using assms(1,2)
    by (auto simp: manage_automation_def kill_recorded_def read_text_def os_kill_def
        unlink_missing_ok_def prims delete_conv')
  have norec: "lookup ?wc (PID_FILE cfg) = None"
    by (simp add: lookup_def delete_conv')
  have stop: "fst (manage_automation cfg interval category ?wc) = Inr () \<and>
      lookup (snd (manage_automation cfg interval category ?wc)) (PID_FILE cfg) = None \<and>
      procs (snd (manage_automation cfg interval category ?wc)) = procs w \<and>
      events (snd (manage_automation cfg interval category ?wc)) =
        events w @ notify_events ''Wallpaper automation stopped'' [] w"
    if "interval \<le> 0"
    using that
    by (simp add: manage_automation_def notify_plain notify_events_def prims delete_conv')
  have start: "fst (manage_automation cfg interval category ?wc) = Inr () \<and>
      lookup (snd (manage_automation cfg interval category ?wc)) (PID_FILE cfg) =
        Some (File (py_str (fresh_pid (procs w)))) \<and>
      procs (snd (manage_automation cfg interval category ?wc)) =
        procs w @ [(fresh_pid (procs w), \<lparr>cmd = loop_args cfg interval category,
                                           foreign = False, traps_term = False\<rparr>)] \<and>
      events (snd (manage_automation cfg interval category ?wc)) =
        events w @ Spawn (loop_args cfg interval category) (fresh_pid (procs w))
        # notify_events (''Wallpaper will change every '' @ py_str interval @ '' seconds'') [] w"
    if pos: "0 < interval"
  proof -
    from pos assms(3) have "start_env cfg ?wc"
      by (simp add: start_env_def prims delete_conv')
    from spawn_phase [OF norec this pos, of category] show ?thesis
      by (simp add: lookup_def update_conv' notify_events_def which_def)
  qed
  from stop start show ?thesis
    unfolding eq by (cases "0 < interval") auto
qed

text \<open>A stop with the record of a dead pid, and a start with a record that is no number.\<close>

theorem manage_automation_stale_record_witness:
  "py_int (strip '' 4242 '') = Some 4242 \<and> map_of (procs (stale_world '' 4242 '')) 4242 = None \<and>
   fst (manage_automation cfg0 0 None (stale_world '' 4242 '')) = Inr () \<and>
   lookup (snd (manage_automation cfg0 0 None (stale_world '' 4242 ''))) (PID_FILE cfg0) = None \<and>
   procs (snd (manage_automation cfg0 0 None (stale_world '' 4242 ''))) = [] \<and>
   py_int (strip ''no pid'') = None \<and>
   fst (manage_automation cfg0 5 None (stale_world ''no pid'')) = Inr () \<and>
   lookup (snd (manage_automation cfg0 5 None (stale_world ''no pid''))) (PID_FILE cfg0) =
     Some (File ''1'')"
proof -
  have a: "py_int (strip '' 4242 '') = Some 4242" by code_simp
  have b: "py_int (strip ''no pid'') = None" by code_simp
  have f: "fresh_pid [] = 1" "py_str 1 = ''1''" by code_simp+
  have l: "lookup (stale_world c) (PID_FILE cfg0) = Some (File c)" for c
    by (simp add: stale_world_def lookup_def)
  have p: "procs (stale_world c) = []" for c
    by (simp add: stale_world_def world0_def)
  have e: "start_env cfg0 (stale_world c)" for c
    by (simp add: start_env_def stale_world_def prims world0_def fs0_def PID_FILE_def
        CACHE_DIR_def XDG_CACHE_def cfg0_def)
  have s1: "py_int (strip '' 4242 '') = None \<or>
      (\<exists>pid. py_int (strip '' 4242 '') = Some pid \<and> 0 < pid \<and> pid < 2 ^ 31 \<and>
             map_of (procs (stale_world '' 4242 '')) pid = None)"
    by (simp add: a p)
  have s2: "py_int (strip ''no pid'') = None \<or>
      (\<exists>pid. py_int (strip ''no pid'') = Some pid \<and> 0 < pid \<and> pid < 2 ^ 31 \<and>
             map_of (procs (stale_world ''no pid'')) pid = None)"
    by (simp add: b)
  from manage_automation_stale_record [OF l s1, of 0 None, THEN conjunct2]
    manage_automation_stale_record [OF l s2, of 5 None, THEN conjunct2] e a b
  show ?thesis by (simp add: p f)
qed

subsection \<open>What tools and tasks leave untouched\<close>

lemma touches_refl [simp]: "touches T w w"
  unfolding touches_def by (intro exI [of _ "fs w"] exI [of _ "events w"] exI [of _ "out w"]) simp

lemma touches_trans: "touches T w w' \<Longrightarrow> touches T' w' w'' \<Longrightarrow> touches (T \<union> T') w w''"
  unfolding touches_def by (elim exE conjE) (simp, metis)

lemma touches_mono: "touches T w w' \<Longrightarrow> T \<subseteq> T' \<Longrightarrow> touches T' w w'"
  unfolding touches_def by blast

lemma touches_log [simp]: "touches T w (log_info m w)" "touches T w (log_error m w)"
  unfolding touches_def log_info_def log_error_def
  by (intro exI [of _ "fs w"] exI [of _ "events w"] exI, simp)+

lemma touches_fields:
  assumes "touches T w w'"
  shows "programs w' = programs w" "exits_ok w' = exits_ok w" "magick_out w' = magick_out w"
    "procs w' = procs w" "threads w' = threads w" "sched w' = sched w" "tick w' = tick w"
    "rand w' = rand w" "rand_ix w' = rand_ix w" "ambient w' = ambient w" "naps w' = naps w"
    "q \<notin> T \<Longrightarrow> lookup w' q = lookup w q"
  using assms unfolding touches_def lookup_def by auto

lemma touches_write: "write_file t c w = Inr w' \<Longrightarrow> touches {t} w w'"
  unfolding touches_def write_file_def
  by (auto split: if_splits option.splits node.splits simp: update_conv'
      intro!: exI [of _ "events w"] exI [of _ "out w"])

lemma touches_copy: "shutil_copy s d w = Inr w' \<Longrightarrow> touches {d, d @ [path_name s]} w w'"
  unfolding shutil_copy_def Let_def
  by (auto split: sum.splits if_splits dest!: touches_write elim: touches_mono)

lemma touches_events [simp]: "touches T w (w\<lparr>events := ev\<rparr>)"
  unfolding touches_def by (intro exI [of _ "fs w"] exI [of _ ev] exI [of _ "out w"]) simp

lemma touches_post:
  "touches T w w' \<Longrightarrow> touches T w (w'\<lparr>events := ev\<rparr>)"
  "touches T w w' \<Longrightarrow> touches T w (log_info m w')"
  "touches T w w' \<Longrightarrow> touches T w (log_error m w')"
  using touches_trans [of T w w' T "w'\<lparr>events := ev\<rparr>"]
    touches_trans [of T w w' T "log_info m w'"] touches_trans [of T w w' T "log_error m w'"]
  by simp_all

lemma touches_subprocess_plain:
  "arg_str a \<noteq> ''magick'' \<Longrightarrow> arg_str a \<noteq> ''pkill'' \<Longrightarrow>
   touches T w (snd (subprocess_run (a # rest) chk w))"
  by (simp add: subprocess_run_plain touches_post)

lemma touches_run_cmd_plain:
  "arg_str a \<noteq> ''magick'' \<Longrightarrow> arg_str a \<noteq> ''pkill'' \<Longrightarrow>
   touches T w (snd (run_cmd (a # rest) False q w))"
  by (simp add: run_cmd_def subprocess_run_plain touches_post Let_def)

lemma touches_subprocess_magick:
  "rest \<noteq> [] \<Longrightarrow> last rest = P g \<Longrightarrow>
   touches {g} w (snd (subprocess_run (S ''magick'' # rest) chk w))"
  by (auto simp: subprocess_run_def tool_run_def Let_def touches_post
      split: sum.splits dest!: touches_write)

lemma touches_run_cmd_magick:
  "rest \<noteq> [] \<Longrightarrow> last rest = P g \<Longrightarrow>
   touches {g} w (snd (run_cmd (S ''magick'' # rest) False q w))"
proof -
  assume a: "rest \<noteq> []" "last rest = P g"
  let ?w1 = "if \<not> q then log_info (''Running: '' @ join_space (map arg_str (S ''magick'' # rest))) w
             else w"
  have 1: "touches {g} w ?w1" by simp
  have 2: "touches {g} ?w1 (snd (subprocess_run (S ''magick'' # rest) True ?w1))"
    using a by (rule touches_subprocess_magick)
  from touches_trans [OF 1 2] have
    "touches {g} w (snd (subprocess_run (S ''magick'' # rest) True ?w1))" by simp
  then show ?thesis
    unfolding run_cmd_def Let_def
    by (auto split: prod.splits sum.splits simp: touches_post)
qed

lemma touches_update_themes: "touches T w (snd (update_themes a w))"
proof -
  note t = touches_run_cmd_plain [of "S ''wallust''", simplified]
    touches_run_cmd_plain [of "S ''systemctl''", simplified]
    touches_run_cmd_plain [of "S ''makoctl''", simplified]
  have tr: "touches T w w1 \<Longrightarrow> touches T w1 w2 \<Longrightarrow> touches T w w2" for w1 w2
    using touches_trans [of T w w1 T w2] by simp
  show ?thesis
    unfolding update_themes_def Let_def
    by (auto simp: split_beta touches_post split: sum.splits
        intro!: touches_post tr [OF _ t(1)] tr [OF _ t(2)] tr [OF _ t(3)])
qed

lemma touches_transform:
  "touches (task_paths cfg e p) w (snd (transform_wallpaper cfg p e margs w))"
proof -
  let ?T = "task_paths cfg e p"
  have tr: "touches ?T w w1 \<Longrightarrow> touches T' w1 w2 \<Longrightarrow> T' \<subseteq> ?T \<Longrightarrow> touches ?T w w2"
    for w1 w2 T'
    using touches_trans [of ?T w w1 T' w2] by (simp add: Un_absorb2)
  have mg: "touches {generic_file cfg e} w1
      (snd (run_cmd (magick_cmd cfg p e margs) False False w1))" for w1
    unfolding magick_cmd_def by (simp add: touches_run_cmd_magick)
  have c1: "shutil_copy (cache_file cfg e p) (generic_file cfg e) w1 = Inr w2 \<Longrightarrow>
      touches ?T w1 w2" for w1 w2
    by (drule touches_copy) (erule touches_mono, simp add: task_paths_def)
  have c2: "shutil_copy (generic_file cfg e) (cache_file cfg e p) w1 = Inr w2 \<Longrightarrow>
      touches ?T w1 w2" for w1 w2
    by (drule touches_copy) (erule touches_mono, simp add: task_paths_def)
  have m: "touches ?T w1 (snd (run_cmd (magick_cmd cfg p e margs) False False w1))" for w1
    by (rule touches_mono [OF mg]) (simp add: task_paths_def)
  let ?c = "cache_file cfg e p" and ?g = "generic_file cfg e"
  show ?thesis
  proof (cases "path_exists w ?c")
    case True
    let ?w1 = "log_info (''Found cached '' @ e @ '' version: '' @ path_str ?c) w"
    show ?thesis
    proof (cases "shutil_copy ?c ?g ?w1")
      case (Inl x)
      with True show ?thesis by (simp add: transform_wallpaper_def)
    next
      case (Inr w2)
      from tr [OF _ c1 [OF Inr]] have "touches ?T w w2" by simp
      with True Inr show ?thesis by (simp add: transform_wallpaper_def)
    qed
  next
    case False
    let ?w1 = "log_info (''Generating new '' @ e @ '' version'') w"
    let ?r = "run_cmd (magick_cmd cfg p e margs) False False ?w1"
    show ?thesis
    proof (cases "which w ''magick''")
      case nomagick: False
      with False show ?thesis by (simp add: transform_wallpaper_def touches_post)
    next
      case magick: True
      have w2: "touches ?T w (snd ?r)"
        using tr [OF _ m [of ?w1]] by simp
      show ?thesis
      proof (cases "fst ?r")
        case (Inl x)
        with False magick w2 show ?thesis
          by (simp add: transform_wallpaper_def split_beta)
      next
        case (Inr r)
        show ?thesis
        proof (cases "truthy r")
          case nok: False
          with False magick w2 Inr show ?thesis
            by (simp add: transform_wallpaper_def split_beta)
        next
          case ok: True
          show ?thesis
          proof (cases "shutil_copy ?g ?c (snd ?r)")
            case (Inl x)
            with False magick w2 ok \<open>fst ?r = Inr r\<close> show ?thesis
              by (simp add: transform_wallpaper_def split_beta)
          next
            case cp: (Inr w3)
            from tr [OF w2 c2 [OF cp]] have "touches ?T w w3" by simp
            with False magick ok \<open>fst ?r = Inr r\<close> cp show ?thesis
              by (simp add: transform_wallpaper_def split_beta)
          qed
        qed
      qed
    qed
  qed
qed

lemma last_png: "e @ ''-wallpaper.png'' \<noteq> ''current_wallpaper''"
proof
  assume "e @ ''-wallpaper.png'' = ''current_wallpaper''"
  then have "last (e @ ''-wallpaper.png'') = last ''current_wallpaper''" by simp
  then show False by simp
qed

lemma protected_paths:
  "current_file cfg \<notin> cache_paths cfg" "CACHE_DIR cfg \<notin> cache_paths cfg"
  by (auto simp: cache_paths_def task_paths_def generic_file_def cache_file_def
      current_file_def GENERATED_DIR_def last_png)

lemma touches_run_task: "touches (cache_paths cfg) w (run_task cfg t w)"
proof (cases t)
  case (Theme a)
  then show ?thesis by (simp add: run_task_def touches_update_themes)
next
  case (Transform p e margs)
  have "task_paths cfg e p \<subseteq> cache_paths cfg" by (auto simp: cache_paths_def)
  with touches_transform [of cfg e p w margs] Transform show ?thesis
    by (simp add: run_task_def touches_mono)
qed

subsection \<open>Threads\<close>

lemma nth_upd: "xs[i := x] ! j = (if i = j \<and> i < length xs then x else xs ! j)"
  by (cases "i < length xs") (auto simp: nth_list_update list_update_beyond)

lemma advancesI:
  "w' = w\<lparr>fs := f, events := ev, out := lg, threads := ts, tick := k\<rparr> \<Longrightarrow>
   (\<forall>q. q \<notin> cache_paths cfg \<longrightarrow> map_of f q = map_of (fs w) q) \<Longrightarrow>
   length ts = length (threads w) \<Longrightarrow>
   (\<forall>i < length ts. task (ts ! i) = task (threads w ! i) \<and>
      (finished (threads w ! i) \<longrightarrow> finished (ts ! i)) \<and>
      (joined (threads w ! i) \<longrightarrow> joined (ts ! i))) \<Longrightarrow>
   advances cfg w w'"
  unfolding advances_def by blast

lemma advances_refl [simp]: "advances cfg w w"
  by (rule advancesI [where f = "fs w" and ev = "events w" and lg = "out w"
        and ts = "threads w" and k = "tick w"]) simp_all

lemma advances_trans: "advances cfg w w' \<Longrightarrow> advances cfg w' w'' \<Longrightarrow> advances cfg w w''"
proof -
  assume "advances cfg w w'" "advances cfg w' w''"
  then obtain f ev lg ts k f' ev' lg' ts' k' where
    1: "w' = w\<lparr>fs := f, events := ev, out := lg, threads := ts, tick := k\<rparr>"
      "\<forall>q. q \<notin> cache_paths cfg \<longrightarrow> map_of f q = map_of (fs w) q"
      "length ts = length (threads w)"
      "\<forall>i < length ts. task (ts ! i) = task (threads w ! i) \<and>
         (finished (threads w ! i) \<longrightarrow> finished (ts ! i)) \<and>
         (joined (threads w ! i) \<longrightarrow> joined (ts ! i))"
    and 2: "w'' = w'\<lparr>fs := f', events := ev', out := lg', threads := ts', tick := k'\<rparr>"
      "\<forall>q. q \<notin> cache_paths cfg \<longrightarrow> map_of f' q = map_of (fs w') q"
      "length ts' = length (threads w')"
      "\<forall>i < length ts'. task (ts' ! i) = task (threads w' ! i) \<and>
         (finished (threads w' ! i) \<longrightarrow> finished (ts' ! i)) \<and>
         (joined (threads w' ! i) \<longrightarrow> joined (ts' ! i))"
    unfolding advances_def by blast
  show ?thesis
  proof (rule advancesI [where f = f' and ev = ev' and lg = lg' and ts = ts' and k = k'])
    show "w'' = w\<lparr>fs := f', events := ev', out := lg', threads := ts', tick := k'\<rparr>"
      using 1(1) 2(1) by simp
    show "\<forall>q. q \<notin> cache_paths cfg \<longrightarrow> map_of f' q = map_of (fs w) q"
      using 1(1,2) 2(2) by simp
    show "length ts' = length (threads w)" using 1(1,3) 2(3) by simp
    show "\<forall>i < length ts'. task (ts' ! i) = task (threads w ! i) \<and>
         (finished (threads w ! i) \<longrightarrow> finished (ts' ! i)) \<and>
         (joined (threads w ! i) \<longrightarrow> joined (ts' ! i))"
      using 1(1,3,4) 2(3,4) by simp
  qed
qed

lemma touches_advances: "touches (cache_paths cfg) w w' \<Longrightarrow> advances cfg w w'"
  unfolding touches_def
  by (elim exE conjE, rule advancesI [where ts = "threads w" and k = "tick w"]) simp_all

lemma advances_fields:
  assumes "advances cfg w w'"
  shows "programs w' = programs w" "exits_ok w' = exits_ok w" "magick_out w' = magick_out w"
    "procs w' = procs w" "sched w' = sched w" "rand w' = rand w" "rand_ix w' = rand_ix w"
    "lookup w' (current_file cfg) = lookup w (current_file cfg)"
    "lookup w' (CACHE_DIR cfg) = lookup w (CACHE_DIR cfg)"
    "length (threads w') = length (threads w)"
    "i < length (threads w) \<Longrightarrow> task (threads w' ! i) = task (threads w ! i)"
    "i < length (threads w) \<Longrightarrow> finished (threads w ! i) \<Longrightarrow> finished (threads w' ! i)"
    "i < length (threads w) \<Longrightarrow> joined (threads w ! i) \<Longrightarrow> joined (threads w' ! i)"
  using assms protected_paths [of cfg] unfolding advances_def lookup_def by auto

lemma advances_threads_upd:
  "length ts = length (threads w) \<Longrightarrow>
   (\<forall>i < length ts. task (ts ! i) = task (threads w ! i) \<and>
      (finished (threads w ! i) \<longrightarrow> finished (ts ! i)) \<and>
      (joined (threads w ! i) \<longrightarrow> joined (ts ! i))) \<Longrightarrow>
   advances cfg w (w\<lparr>threads := ts\<rparr>)"
  by (rule advancesI [where f = "fs w" and ev = "events w" and lg = "out w"
        and ts = ts and k = "tick w"]) simp_all

lemma advances_tick [simp]: "advances cfg w (w\<lparr>tick := k\<rparr>)"
  by (rule advancesI [where f = "fs w" and ev = "events w" and lg = "out w"
        and ts = "threads w" and k = k]) simp_all

lemma advances_log [simp]: "advances cfg w (log_info m w)" "advances cfg w (log_error m w)"
  by (simp_all add: touches_advances)

lemma advances_run_thread: "advances cfg w (run_thread cfg i w)"
proof (cases "i < length (threads w) \<and> \<not> finished (threads w ! i)")
  case False
  then show ?thesis by (auto simp: run_thread_def)
next
  case True
  let ?w1 = "run_task cfg (task (threads w ! i)) w"
  have t: "touches (cache_paths cfg) w ?w1" by (rule touches_run_task)
  note f = touches_fields [OF t]
  have "advances cfg ?w1 (?w1\<lparr>threads := (threads ?w1)[i := (threads ?w1 ! i)\<lparr>finished := True\<rparr>]\<rparr>)"
    by (rule advances_threads_upd) (auto simp: nth_upd)
  with touches_advances [OF t] True show ?thesis
    by (auto simp: run_thread_def Let_def intro: advances_trans)
qed

lemma advances_fold: "advances cfg w (fold (run_thread cfg) is w)"
proof (induction "is" arbitrary: w)
  case Nil
  show ?case by simp
next
  case (Cons i "is")
  from advances_trans [OF advances_run_thread Cons.IH] show ?case by simp
qed

lemma advances_yield: "advances cfg w (yield cfg w)"
  unfolding yield_def by (rule advances_trans [OF advances_tick advances_fold])

lemma run_thread_finished:
  "i < length (threads w) \<Longrightarrow> finished (threads (run_thread cfg i w) ! i)"
  using touches_fields(5) [OF touches_run_task, of cfg "task (threads w ! i)" w]
  by (simp add: run_thread_def Let_def)

lemma advances_join: "advances cfg w (thread_join cfg i w)"
proof -
  let ?w1 = "run_thread cfg i w"
  have "advances cfg ?w1 (?w1\<lparr>threads := (threads ?w1)[i := (threads ?w1 ! i)\<lparr>joined := True\<rparr>]\<rparr>)"
    by (rule advances_threads_upd) (auto simp: nth_upd)
  with advances_run_thread [of cfg w i] show ?thesis
    by (auto simp: thread_join_def Let_def intro: advances_trans)
qed

lemma thread_join_done:
  assumes "i < length (threads w)"
  shows "finished (threads (thread_join cfg i w) ! i)" "joined (threads (thread_join cfg i w) ! i)"
proof -
  from assms advances_fields(10) [OF advances_run_thread [of cfg w i]]
  have "i < length (threads (run_thread cfg i w))" by simp
  with run_thread_finished [OF assms, of cfg]
  show "finished (threads (thread_join cfg i w) ! i)" "joined (threads (thread_join cfg i w) ! i)"
    by (simp_all add: thread_join_def Let_def)
qed

lemma run_thread_joined: "map joined (threads (run_thread cfg i w)) = map joined (threads w)"
  using touches_fields(5) [OF touches_run_task, of cfg "task (threads w ! i)" w]
  by (auto simp: run_thread_def Let_def list_eq_iff_nth_eq nth_upd)

lemma fold_joined: "map joined (threads (fold (run_thread cfg) is w)) = map joined (threads w)"
  by (induction "is" arbitrary: w) (simp_all add: run_thread_joined)

lemma yield_joined: "map joined (threads (yield cfg w)) = map joined (threads w)"
  by (simp add: yield_def fold_joined)

text \<open>One thread start: the new thread is the last one, everything before it advances.\<close>

lemma thread_start_facts:
  fixes cfg t w
  defines "w' \<equiv> snd (thread_start cfg t w)"
  shows "fst (thread_start cfg t w) = length (threads w)"
    and "advances cfg (w\<lparr>threads := threads w @ [new_thread t]\<rparr>) w'"
    and "length (threads w') = Suc (length (threads w))"
    and "task (threads w' ! length (threads w)) = t"
    and "map joined (threads w') = map joined (threads w) @ [False]"
proof -
  let ?a = "w\<lparr>threads := threads w @ [new_thread t]\<rparr>"
  have w': "w' = yield cfg ?a" by (simp add: w'_def thread_start_def new_thread_def)
  show "fst (thread_start cfg t w) = length (threads w)" by (simp add: thread_start_def)
  show adv: "advances cfg ?a w'" unfolding w' by (rule advances_yield)
  from advances_fields(10) [OF adv]
  show len: "length (threads w') = Suc (length (threads w))" by simp
  from advances_fields(11) [OF adv, of "length (threads w)"]
  show "task (threads w' ! length (threads w)) = t" by (simp add: new_thread_def)
  show "map joined (threads w') = map joined (threads w) @ [False]"
    unfolding w' by (simp add: yield_joined new_thread_def)
qed

lemma thread_start_frame:
  "programs (snd (thread_start cfg t w)) = programs w"
  "procs (snd (thread_start cfg t w)) = procs w"
  "lookup (snd (thread_start cfg t w)) (current_file cfg) = lookup w (current_file cfg)"
  "lookup (snd (thread_start cfg t w)) (CACHE_DIR cfg) = lookup w (CACHE_DIR cfg)"
  "i < length (threads w) \<Longrightarrow> task (threads (snd (thread_start cfg t w)) ! i) = task (threads w ! i)"
  using advances_fields [OF thread_start_facts(2) [where cfg = cfg and t = t and w = w]]
  by (simp_all add: lookup_def nth_append)

lemma after_starts_facts:
  "programs (after_starts cfg p w) = programs w"
  "procs (after_starts cfg p w) = procs w"
  "lookup (after_starts cfg p w) (current_file cfg) = lookup w (current_file cfg)"
  "lookup (after_starts cfg p w) (CACHE_DIR cfg) = lookup w (CACHE_DIR cfg)"
  "length (threads (after_starts cfg p w)) = length (threads w) + 3"
  "task (threads (after_starts cfg p w) ! length (threads w)) = Theme (P p)"
  "task (threads (after_starts cfg p w) ! (length (threads w) + 1)) =
     Transform p ''square'' square_args"
  "task (threads (after_starts cfg p w) ! (length (threads w) + 2)) =
     Transform p ''blurred'' blur_args"
  "map joined (threads (after_starts cfg p w)) = map joined (threads w) @ [False, False, False]"
proof -
  let ?w0 = "log_info (''Setting wallpaper: '' @ path_str p) w"
  let ?w1 = "snd (thread_start cfg (Theme (P p)) ?w0)"
  let ?w2 = "snd (thread_start cfg (Transform p ''square'' square_args) ?w1)"
  note f1 = thread_start_facts [where cfg = cfg and t = "Theme (P p)" and w = ?w0]
  note f2 = thread_start_facts [where cfg = cfg and t = "Transform p ''square'' square_args" and w = ?w1]
  note f3 = thread_start_facts [where cfg = cfg and t = "Transform p ''blurred'' blur_args" and w = ?w2]
  have l1: "length (threads ?w1) = length (threads w) + 1" using f1(3) by simp
  have l2: "length (threads ?w2) = length (threads w) + 2" using f2(3) l1 by simp
  show "programs (after_starts cfg p w) = programs w"
    "procs (after_starts cfg p w) = procs w"
    "lookup (after_starts cfg p w) (current_file cfg) = lookup w (current_file cfg)"
    "lookup (after_starts cfg p w) (CACHE_DIR cfg) = lookup w (CACHE_DIR cfg)"
    by (simp_all add: after_starts_def thread_start_frame)
  show "length (threads (after_starts cfg p w)) = length (threads w) + 3"
    using f3(3) l2 by (simp add: after_starts_def)
  have "task (threads ?w1 ! length (threads w)) = Theme (P p)" using f1(4) by simp
  then show "task (threads (after_starts cfg p w) ! length (threads w)) = Theme (P p)"
    using l1 l2 by (simp add: after_starts_def thread_start_frame(5))
  have "task (threads ?w2 ! (length (threads w) + 1)) = Transform p ''square'' square_args"
    using f2(4) l1 by simp
  then show "task (threads (after_starts cfg p w) ! (length (threads w) + 1)) =
     Transform p ''square'' square_args"
    using l2 by (simp add: after_starts_def thread_start_frame(5))
  show "task (threads (after_starts cfg p w) ! (length (threads w) + 2)) =
     Transform p ''blurred'' blur_args"
    using f3(4) l2 by (simp add: after_starts_def)
  show "map joined (threads (after_starts cfg p w)) = map joined (threads w) @ [False, False, False]"
    using f1(5) f2(5) f3(5) by (simp add: after_starts_def)
qed

subsection \<open>Setting the wallpaper\<close>

lemma launch_swaybg_missing:
  "\<not> which w ''swaybg'' \<Longrightarrow>
   launch_swaybg a w = (Inr False, log_error ''application not found: swaybg'' w)"
  by (simp add: launch_swaybg_def)

lemma launch_swaybg_no_pkill:
  "which w ''swaybg'' \<Longrightarrow> \<not> which w ''pkill'' \<Longrightarrow>
   launch_swaybg a w =
     (Inl FileNotFoundError, log_info ''Killing any running instances of swaybg'' w)"
  by (simp add: launch_swaybg_def subprocess_run_def)

lemma launch_swaybg_ok:
  "which w ''swaybg'' \<Longrightarrow> which w ''pkill'' \<Longrightarrow>
   \<exists>ps ev lg. launch_swaybg a w = (Inr True, w\<lparr>procs := ps, events := ev, out := lg\<rparr>)"
  by (simp add: launch_swaybg_def subprocess_run_def tool_run_def popen_def Let_def which_def
      log_info_def, intro exI, rule refl)

lemma set_wallpaper_unfold:
  "path_exists w p \<Longrightarrow>
   set_wallpaper cfg p w =
     (case launch_swaybg (P p) (after_starts cfg p w) of
        (Inl e, w4) \<Rightarrow> (Inl e, w4)
      | (Inr ok, w4) \<Rightarrow>
          if \<not> ok then (Inr False, w4)
          else
            case write_text (current_file cfg) (path_str p)
                   (yield cfg (log_info (''Caching wallpaper filename: '' @ path_str p) w4)) of
              Inl e \<Rightarrow>
                (Inl e, yield cfg (log_info (''Caching wallpaper filename: '' @ path_str p) w4))
            | Inr w6 \<Rightarrow>
                (Inr True,
                 fold (thread_join cfg)
                   [length (threads w), length (threads w) + 1, length (threads w) + 2]
                   (yield cfg w6)))"
proof -
  let ?w0 = "log_info (''Setting wallpaper: '' @ path_str p) w"
  let ?w1 = "snd (thread_start cfg (Theme (P p)) ?w0)"
  let ?w2 = "snd (thread_start cfg (Transform p ''square'' square_args) ?w1)"
  have l1: "length (threads ?w1) = length (threads w) + 1"
    using thread_start_facts(3) [where cfg = cfg and t = "Theme (P p)" and w = ?w0] by simp
  have l2: "length (threads ?w2) = length (threads w) + 2"
    using thread_start_facts(3) [where cfg = cfg and t = "Transform p ''square'' square_args"
        and w = ?w1] l1 by simp
  have t: "fst (thread_start cfg (Theme (P p)) ?w0) = length (threads w)"
    "fst (thread_start cfg (Transform p ''square'' square_args) ?w1) = length (threads w) + 1"
    "fst (thread_start cfg (Transform p ''blurred'' blur_args) ?w2) = length (threads w) + 2"
    by (simp_all only: thread_start_facts(1) l1 l2) simp
  assume "path_exists w p"
  then show ?thesis
    unfolding set_wallpaper_def after_starts_def Let_def split_beta t
    by simp
qed


lemma joins_done:
  "\<forall>i \<in> set is. i < length (threads w) \<Longrightarrow>
   advances cfg w (fold (thread_join cfg) is w) \<and>
   (\<forall>i \<in> set is. finished (threads (fold (thread_join cfg) is w) ! i) \<and>
                  joined (threads (fold (thread_join cfg) is w) ! i))"
proof (induction "is" arbitrary: w)
  case Nil
  show ?case by simp
next
  case (Cons i "is")
  let ?w1 = "thread_join cfg i w"
  let ?w' = "fold (thread_join cfg) is ?w1"
  have a1: "advances cfg w ?w1" by (rule advances_join)
  have len: "length (threads ?w1) = length (threads w)" by (rule advances_fields(10) [OF a1])
  from Cons.prems len have "\<forall>j \<in> set is. j < length (threads ?w1)" by simp
  from Cons.IH [OF this] have ih: "advances cfg ?w1 ?w'"
    "\<forall>j \<in> set is. finished (threads ?w' ! j) \<and> joined (threads ?w' ! j)" by auto
  from Cons.prems have i: "i < length (threads w)" by simp
  then have "i < length (threads ?w1)" using len by simp
  with thread_join_done [OF i, of cfg] advances_fields(12,13) [OF ih(1), of i]
  have "finished (threads ?w' ! i) \<and> joined (threads ?w' ! i)" by simp
  with ih advances_trans [OF a1 ih(1)] show ?case by simp
qed

text \<open>
  C1. When \<open>swaybg\<close> is not installed, \<open>set_wallpaper\<close> returns \<open>False\<close> for every path, and
  the \<open>current_wallpaper\<close> file is as before the call, whatever the threads started by
  the call, or started before it, have done in the meantime.
\<close>

theorem set_wallpaper_display_failure:
  "\<not> which w ''swaybg'' \<Longrightarrow>
   fst (set_wallpaper cfg p w) = Inr False \<and>
   lookup (snd (set_wallpaper cfg p w)) (current_file cfg) = lookup w (current_file cfg)"
proof (cases "path_exists w p")
  case False
  then show ?thesis by (simp add: set_wallpaper_def)
next
  case True
  assume "\<not> which w ''swaybg''"
  then have "\<not> which (after_starts cfg p w) ''swaybg''"
    by (simp add: which_def after_starts_facts(1))
  from launch_swaybg_missing [OF this] after_starts_facts(3) [of cfg p w] show ?thesis
    by (simp add: set_wallpaper_unfold [OF True])
qed

theorem set_wallpaper_display_failure_witness:
  "\<not> which no_display ''swaybg'' \<and> path_exists no_display a_png \<and>
   fst (set_wallpaper cfg0 a_png no_display) = Inr False \<and>
   lookup (snd (set_wallpaper cfg0 a_png no_display)) (current_file cfg0) = None"
proof -
  have h: "\<not> which no_display ''swaybg''" by (simp add: which_def no_display_def)
  have e: "path_exists no_display a_png"
    by (simp add: prims no_display_def world0_def fs0_def a_png_def)
  have n: "lookup no_display (current_file cfg0) = None"
    by (simp add: prims no_display_def world0_def fs0_def current_file_def CACHE_DIR_def
        XDG_CACHE_def cfg0_def)
  from set_wallpaper_display_failure [OF h, of cfg0 a_png] h e n show ?thesis by simp
qed

text \<open>
  C5, as stated, fails: without \<open>swaybg\<close> the call returns \<open>False\<close> with its three
  threads started, none of them finished, none joined.
\<close>

theorem set_wallpaper_join_counterexample:
  "path_exists no_display a_png \<and>
   fst (set_wallpaper cfg0 a_png no_display) = Inr False \<and>
   threads (snd (set_wallpaper cfg0 a_png no_display)) =
     [\<lparr>task = Theme (P a_png), finished = False, joined = False\<rparr>,
      \<lparr>task = Transform a_png ''square'' square_args, finished = False, joined = False\<rparr>,
      \<lparr>task = Transform a_png ''blurred'' blur_args, finished = False, joined = False\<rparr>]"
  by code_simp

text \<open>
  C5, amended. For an existing path the call starts its three threads. When it returns
  \<open>True\<close>, each of the three has finished and has been joined. A returned truth value is
  \<open>True\<close> exactly when the path exists and \<open>swaybg\<close> is installed, whatever the tasks
  do; and the call does return \<open>True\<close> when moreover \<open>pkill\<close> is installed and the state
  file can be written.
\<close>

theorem set_wallpaper_joins:
  "(\<not> path_exists w p \<longrightarrow>
      fst (set_wallpaper cfg p w) = Inr False \<and> threads (snd (set_wallpaper cfg p w)) = threads w) \<and>
   (path_exists w p \<longrightarrow>
      length (threads (snd (set_wallpaper cfg p w))) = length (threads w) + 3 \<and>
      task (threads (snd (set_wallpaper cfg p w)) ! length (threads w)) = Theme (P p) \<and>
      task (threads (snd (set_wallpaper cfg p w)) ! (length (threads w) + 1)) =
        Transform p ''square'' square_args \<and>
      task (threads (snd (set_wallpaper cfg p w)) ! (length (threads w) + 2)) =
        Transform p ''blurred'' blur_args) \<and>
   (fst (set_wallpaper cfg p w) = Inr True \<longrightarrow>
      (\<forall>i \<in> {length (threads w), length (threads w) + 1, length (threads w) + 2}.
         finished (threads (snd (set_wallpaper cfg p w)) ! i) \<and>
         joined (threads (snd (set_wallpaper cfg p w)) ! i))) \<and>
   (\<forall>b. fst (set_wallpaper cfg p w) = Inr b \<longrightarrow> b = (path_exists w p \<and> which w ''swaybg'')) \<and>
   (path_exists w p \<and> which w ''swaybg'' \<and> which w ''pkill'' \<and> is_dir w (CACHE_DIR cfg) \<and>
    \<not> is_dir w (current_file cfg) \<longrightarrow> fst (set_wallpaper cfg p w) = Inr True)"
proof (cases "path_exists w p")
  case False
  then show ?thesis by (simp add: set_wallpaper_def)
next
  case True
  let ?n = "length (threads w)"
  let ?a = "after_starts cfg p w"
  note af = after_starts_facts [of cfg p w]
  note unf = set_wallpaper_unfold [OF True, of cfg]
  show ?thesis
  proof (cases "which w ''swaybg''")
    case nosway: False
    then have "\<not> which ?a ''swaybg''" by (simp add: which_def af(1))
    from launch_swaybg_missing [OF this] have
      r: "set_wallpaper cfg p w = (Inr False, log_error ''application not found: swaybg'' ?a)"
      by (simp add: unf)
    from True nosway af(5-8) show ?thesis by (simp add: r)
  next
    case sway: True
    then have sa: "which ?a ''swaybg''" by (simp add: which_def af(1))
    show ?thesis
    proof (cases "which w ''pkill''")
      case False
      then have "\<not> which ?a ''pkill''" by (simp add: which_def af(1))
      from launch_swaybg_no_pkill [OF sa this, of "P p"] have
        r: "set_wallpaper cfg p w =
              (Inl FileNotFoundError, log_info ''Killing any running instances of swaybg'' ?a)"
        by (simp add: unf)
      from True False af(5-8) show ?thesis by (simp add: r)
    next
      case pk: True
      then have "which ?a ''pkill''" by (simp add: which_def af(1))
      from launch_swaybg_ok [OF sa this, of "P p"] obtain ps ev lg where
        l: "launch_swaybg (P p) ?a = (Inr True, ?a\<lparr>procs := ps, events := ev, out := lg\<rparr>)"
        by blast
      let ?w4 = "?a\<lparr>procs := ps, events := ev, out := lg\<rparr>"
      let ?w5 = "yield cfg (log_info (''Caching wallpaper filename: '' @ path_str p) ?w4)"
      have a5: "advances cfg ?w4 ?w5"
        by (rule advances_trans [OF advances_log(1) advances_yield])
      note f5 = advances_fields [OF a5]
      have len5: "length (threads ?w5) = ?n + 3" using f5(10) af(5) by simp
      have task5: "i < ?n + 3 \<Longrightarrow> task (threads ?w5 ! i) = task (threads ?a ! i)" for i
        using f5(11) [of i] af(5) by simp
      have lk5: "lookup ?w5 (current_file cfg) = lookup w (current_file cfg)"
        "lookup ?w5 (CACHE_DIR cfg) = lookup w (CACHE_DIR cfg)"
        using f5(8,9) af(3,4) by (simp_all add: lookup_def)
      show ?thesis
      proof (cases "write_text (current_file cfg) (path_str p) ?w5")
        case (Inl e)
        then have r: "set_wallpaper cfg p w = (Inl e, ?w5)" by (simp add: unf l)
        from Inl lk5 have "\<not> (is_dir w (CACHE_DIR cfg) \<and> \<not> is_dir w (current_file cfg))"
          by (auto simp: write_text_def write_file_def current_file_def is_dir_def
              split: option.splits node.splits if_splits)
        with True len5 task5 af(6-8) show ?thesis by (simp add: r)
      next
        case (Inr w6)
        let ?w7 = "yield cfg w6"
        let ?w8 = "fold (thread_join cfg) [?n, ?n + 1, ?n + 2] ?w7"
        from Inr have r: "set_wallpaper cfg p w = (Inr True, ?w8)" by (simp add: unf l)
        from Inr have t6: "threads w6 = threads ?w5"
          by (auto simp: write_text_def write_file_def split: option.splits node.splits if_splits)
        note f7 = advances_fields [OF advances_yield [of cfg w6]]
        have len7: "length (threads ?w7) = ?n + 3" using f7(10) t6 len5 by simp
        then have "\<forall>i \<in> set [?n, ?n + 1, ?n + 2]. i < length (threads ?w7)" by simp
        from joins_done [OF this, of cfg] have j: "advances cfg ?w7 ?w8"
          "\<forall>i \<in> {?n, ?n + 1, ?n + 2}. finished (threads ?w8 ! i) \<and> joined (threads ?w8 ! i)"
          by simp_all
        note f8 = advances_fields [OF j(1)]
        have len8: "length (threads ?w8) = ?n + 3" using f8(10) len7 by simp
        have task8: "task (threads ?w8 ! i) = task (threads ?a ! i)" if "i < ?n + 3" for i
          using that f8(11) [of i] f7(11) [of i] t6 len5 len7 task5 [of i] by simp
        from True sway len8 task8 af(6-8) j(2) show ?thesis by (simp add: r)
      qed
    qed
  qed
qed

theorem set_wallpaper_joins_witness:
  "path_exists world0 a_png \<and> which world0 ''swaybg'' \<and> which world0 ''pkill'' \<and>
   is_dir world0 (CACHE_DIR cfg0) \<and> \<not> is_dir world0 (current_file cfg0) \<and>
   fst (set_wallpaper cfg0 a_png world0) = Inr True \<and>
   finished (threads (snd (set_wallpaper cfg0 a_png world0)) ! 0) \<and>
   joined (threads (snd (set_wallpaper cfg0 a_png world0)) ! 0) \<and>
   finished (threads (snd (set_wallpaper cfg0 a_png world0)) ! 1) \<and>
   joined (threads (snd (set_wallpaper cfg0 a_png world0)) ! 1) \<and>
   finished (threads (snd (set_wallpaper cfg0 a_png world0)) ! 2) \<and>
   joined (threads (snd (set_wallpaper cfg0 a_png world0)) ! 2)"
proof -
  have h: "path_exists world0 a_png" "which world0 ''swaybg''" "which world0 ''pkill''"
    "is_dir world0 (CACHE_DIR cfg0)" "\<not> is_dir world0 (current_file cfg0)"
    by (simp_all add: prims world0_def fs0_def a_png_def current_file_def CACHE_DIR_def
        XDG_CACHE_def cfg0_def)
  have n: "length (threads world0) = 0" by (simp add: world0_def)
  from set_wallpaper_joins [of world0 a_png cfg0] h show ?thesis
    by (simp add: n numeral_2_eq_2)
qed

subsection \<open>Derived images and their cache\<close>

lemma path_facts:
  "butlast (generic_file cfg e) = CACHE_DIR cfg" "generic_file cfg e \<noteq> []"
  "butlast (cache_file cfg e p) = GENERATED_DIR cfg" "cache_file cfg e p \<noteq> []"
  "generic_file cfg e \<noteq> cache_file cfg e p" "cache_file cfg e p \<noteq> generic_file cfg e"
  "generic_file cfg e \<noteq> CACHE_DIR cfg" "cache_file cfg e p \<noteq> CACHE_DIR cfg"
  "cache_file cfg e p \<noteq> GENERATED_DIR cfg"
  "CACHE_DIR cfg \<noteq> generic_file cfg e" "CACHE_DIR cfg \<noteq> cache_file cfg e p"
  "GENERATED_DIR cfg \<noteq> cache_file cfg e p"
  by (simp_all add: generic_file_def cache_file_def GENERATED_DIR_def butlast_append)

lemma generated_not_generic: "GENERATED_DIR cfg \<noteq> generic_file cfg e"
proof
  assume "GENERATED_DIR cfg = generic_file cfg e"
  then have "''generated'' = e @ ''-wallpaper.png''"
    by (simp add: GENERATED_DIR_def generic_file_def)
  then have "last ''generated'' = last (e @ ''-wallpaper.png'')" by simp
  then show False by simp
qed

lemma magick_cmd_shape:
  "magick_cmd cfg p e margs = S ''magick'' # (P p # map S margs @ [P (generic_file cfg e)])"
  "last (P p # map S margs @ [P (generic_file cfg e)]) = P (generic_file cfg e)"
  by (simp_all add: magick_cmd_def)

text \<open>A run of \<open>magick\<close> through \<open>run_cmd\<close>, when the tool is installed.\<close>

lemma run_cmd_magick:
  assumes "which w ''magick''"
  shows "fst (run_cmd (magick_cmd cfg p e margs) False False w) =
           Inr (Done (magick_ok cfg p e margs w))"
    and "events (snd (run_cmd (magick_cmd cfg p e margs) False False w)) =
           events w @ [Exec (magick_cmd cfg p e margs) (magick_ok cfg p e margs w)]"
    and "fs (snd (run_cmd (magick_cmd cfg p e margs) False False w)) =
           (if magick_ok cfg p e margs w
            then AList.update (generic_file cfg e)
                   (File (magick_out w (magick_cmd cfg p e margs))) (fs w)
            else fs w)"
    and "programs (snd (run_cmd (magick_cmd cfg p e margs) False False w)) = programs w"
    and "exits_ok (snd (run_cmd (magick_cmd cfg p e margs) False False w)) = exits_ok w"
    and "magick_out (snd (run_cmd (magick_cmd cfg p e margs) False False w)) = magick_out w"
  using assms
  by (auto simp: run_cmd_def subprocess_run_def tool_run_def magick_cmd_shape write_file_def
      magick_ok_def path_facts prims Let_def split: option.splits node.splits)

lemma magick_runs_simps [simp]:
  "magick_runs (es @ es') = magick_runs es + magick_runs es'"
  "magick_runs (Exec (magick_cmd cfg p e margs) ok # es) = Suc (magick_runs es)"
  "magick_runs [] = 0"
  by (simp_all add: magick_runs_def magick_cmd_def)

lemma transform_miss_ok:
  assumes "\<not> path_exists w (cache_file cfg e p)" "magick_ok cfg p e margs w"
    "is_dir w (GENERATED_DIR cfg)"
  shows "fst (transform_wallpaper cfg p e margs w) = Inr ()"
    and "events (snd (transform_wallpaper cfg p e margs w)) =
           events w @ [Exec (magick_cmd cfg p e margs) True]"
    and "fs (snd (transform_wallpaper cfg p e margs w)) =
           AList.update (cache_file cfg e p) (File (magick_out w (magick_cmd cfg p e margs)))
             (AList.update (generic_file cfg e)
                (File (magick_out w (magick_cmd cfg p e margs))) (fs w))"
    and "programs (snd (transform_wallpaper cfg p e margs w)) = programs w"
    and "exits_ok (snd (transform_wallpaper cfg p e margs w)) = exits_ok w"
    and "magick_out (snd (transform_wallpaper cfg p e margs w)) = magick_out w"
proof -
  define msg where "msg = ''Generating new '' @ e @ '' version''"
  define w2 where "w2 = snd (run_cmd (magick_cmd cfg p e margs) False False (log_info msg w))"
  let ?x = "magick_out w (magick_cmd cfg p e margs)"
  from assms(2) have wh: "which (log_info msg w) ''magick''"
    and ok: "magick_ok cfg p e margs (log_info msg w)"
    by (simp_all add: magick_ok_def)
  note rc = run_cmd_magick [OF wh, of cfg p e margs, folded w2_def]
  have fs2: "fs w2 = AList.update (generic_file cfg e) (File ?x) (fs w)"
    using rc(3) ok by simp
  have cp: "shutil_copy (generic_file cfg e) (cache_file cfg e p) w2 =
      Inr (w2\<lparr>fs := AList.update (cache_file cfg e p) (File ?x) (fs w2)\<rparr>)"
    using assms(1,3)
    by (simp add: shutil_copy_def read_text_def write_file_def prims fs2 update_conv' path_facts
        generated_not_generic)
  have t: "transform_wallpaper cfg p e margs w =
      (Inr (), w2\<lparr>fs := AList.update (cache_file cfg e p) (File ?x) (fs w2)\<rparr>)"
    unfolding transform_wallpaper_def msg_def [symmetric] Let_def split_beta
    using assms(1) wh rc(1) ok cp
    by (simp add: w2_def [symmetric])
  show "fst (transform_wallpaper cfg p e margs w) = Inr ()"
    "events (snd (transform_wallpaper cfg p e margs w)) =
           events w @ [Exec (magick_cmd cfg p e margs) True]"
    "fs (snd (transform_wallpaper cfg p e margs w)) =
           AList.update (cache_file cfg e p) (File ?x)
             (AList.update (generic_file cfg e) (File ?x) (fs w))"
    "programs (snd (transform_wallpaper cfg p e margs w)) = programs w"
    "exits_ok (snd (transform_wallpaper cfg p e margs w)) = exits_ok w"
    "magick_out (snd (transform_wallpaper cfg p e margs w)) = magick_out w"
    using rc(2,4,5,6) ok by (simp_all add: t fs2)
qed

lemma transform_miss_fail:
  assumes "\<not> path_exists w (cache_file cfg e p)" "\<not> magick_ok cfg p e margs w"
  shows "fst (transform_wallpaper cfg p e margs w) = Inr () \<and>
     events (snd (transform_wallpaper cfg p e margs w)) =
       events w @ (if which w ''magick'' then [Exec (magick_cmd cfg p e margs) False] else []) \<and>
     fs (snd (transform_wallpaper cfg p e margs w)) = fs w \<and>
     programs (snd (transform_wallpaper cfg p e margs w)) = programs w \<and>
     exits_ok (snd (transform_wallpaper cfg p e margs w)) = exits_ok w"
proof (cases "which w ''magick''")
  case False
  with assms(1) show ?thesis
    by (simp add: transform_wallpaper_def)
next
  case True
  define msg where "msg = ''Generating new '' @ e @ '' version''"
  define w2 where "w2 = snd (run_cmd (magick_cmd cfg p e margs) False False (log_info msg w))"
  from True have wh: "which (log_info msg w) ''magick''" by simp
  from assms(2) have nok: "\<not> magick_ok cfg p e margs (log_info msg w)"
    by (simp add: magick_ok_def)
  note rc = run_cmd_magick [OF wh, of cfg p e margs, folded w2_def]
  have t: "transform_wallpaper cfg p e margs w = (Inr (), w2)"
    unfolding transform_wallpaper_def msg_def [symmetric] Let_def split_beta
    using assms(1) wh rc(1) nok
    by (simp add: w2_def [symmetric])
  from True rc nok show ?thesis
    by (simp add: t)
qed

lemma shutil_copy_frame:
  "shutil_copy s d w = Inr w' \<Longrightarrow> events w' = events w \<and> (path_exists w q \<longrightarrow> path_exists w' q)"
  by (auto simp: shutil_copy_def write_file_def prims update_conv' Let_def
      split: sum.splits if_splits option.splits node.splits)

lemma transform_hit:
  assumes "path_exists w (cache_file cfg e p)"
  shows "events (snd (transform_wallpaper cfg p e margs w)) = events w"
    and "path_exists (snd (transform_wallpaper cfg p e margs w)) (cache_file cfg e p)"
proof -
  define w1 where
    "w1 = log_info (''Found cached '' @ e @ '' version: '' @ path_str (cache_file cfg e p)) w"
  have w1: "events w1 = events w" "path_exists w1 (cache_file cfg e p)"
    using assms by (simp_all add: w1_def)
  have t: "transform_wallpaper cfg p e margs w =
      (case shutil_copy (cache_file cfg e p) (generic_file cfg e) w1 of
         Inl x \<Rightarrow> (Inl x, w1) | Inr w2 \<Rightarrow> (Inr (), w2))"
    using assms unfolding transform_wallpaper_def Let_def w1_def by simp
  show "events (snd (transform_wallpaper cfg p e margs w)) = events w"
    "path_exists (snd (transform_wallpaper cfg p e margs w)) (cache_file cfg e p)"
    using w1 shutil_copy_frame [of "cache_file cfg e p" "generic_file cfg e" w1 _
        "cache_file cfg e p"]
    by (auto simp: t split: sum.splits)
qed

lemma transform_hit_file:
  assumes "lookup w (cache_file cfg e p) = Some (File x)" "is_dir w (CACHE_DIR cfg)"
    "\<not> is_dir w (generic_file cfg e)"
  shows "fst (transform_wallpaper cfg p e margs w) = Inr ()"
    and "fs (snd (transform_wallpaper cfg p e margs w)) =
           AList.update (generic_file cfg e) (File x) (fs w)"
  using assms
  by (auto simp: transform_wallpaper_def shutil_copy_def read_text_def write_file_def prims
      path_facts Let_def split: option.splits node.splits)

text \<open>
  C4, as stated, fails: when \<open>magick\<close> is installed and fails, each of two successive
  calls runs it, twice in all.
\<close>

theorem transform_wallpaper_twice_counterexample:
  "magick_runs (events magick_fails) = 0 \<and>
   magick_runs (events (snd (transform_wallpaper cfg0 a_png ''square'' square_args
     (snd (transform_wallpaper cfg0 a_png ''square'' square_args magick_fails))))) = 2"
  by code_simp

text \<open>
  C4, amended. Take two successive calls for the same effect and image.
  \<^item> Cache miss, and the transformation succeeds with the cache directories in place: the
    first call runs \<open>magick\<close> once and stores its output as the generic-latest file and
    as the cache entry; the second call runs nothing and only rewrites the generic-latest
    file from the cache entry. One run in all.
  \<^item> Cache miss, and \<open>magick\<close> is missing or fails: the file system is unchanged, so no
    cache entry is written, and the second call attempts the transformation again.
  \<^item> Cache entry present: neither call runs anything.
\<close>

theorem transform_wallpaper_twice:
  "(\<not> path_exists w (cache_file cfg e p) \<and> magick_ok cfg p e margs w \<and>
    is_dir w (GENERATED_DIR cfg) \<longrightarrow>
      fst (transform_wallpaper cfg p e margs w) = Inr () \<and>
      events (snd (transform_wallpaper cfg p e margs w)) =
        events w @ [Exec (magick_cmd cfg p e margs) True] \<and>
      lookup (snd (transform_wallpaper cfg p e margs w)) (cache_file cfg e p) =
        Some (File (magick_out w (magick_cmd cfg p e margs))) \<and>
      lookup (snd (transform_wallpaper cfg p e margs w)) (generic_file cfg e) =
        Some (File (magick_out w (magick_cmd cfg p e margs))) \<and>
      fst (transform_wallpaper cfg p e margs (snd (transform_wallpaper cfg p e margs w))) = Inr () \<and>
      events (snd (transform_wallpaper cfg p e margs (snd (transform_wallpaper cfg p e margs w)))) =
        events (snd (transform_wallpaper cfg p e margs w)) \<and>
      fs (snd (transform_wallpaper cfg p e margs (snd (transform_wallpaper cfg p e margs w)))) =
        AList.update (generic_file cfg e) (File (magick_out w (magick_cmd cfg p e margs)))
          (fs (snd (transform_wallpaper cfg p e margs w))) \<and>
      magick_runs (events (snd (transform_wallpaper cfg p e margs
          (snd (transform_wallpaper cfg p e margs w))))) = magick_runs (events w) + 1) \<and>
   (\<not> path_exists w (cache_file cfg e p) \<and> \<not> magick_ok cfg p e margs w \<longrightarrow>
      fs (snd (transform_wallpaper cfg p e margs w)) = fs w \<and>
      \<not> path_exists (snd (transform_wallpaper cfg p e margs w)) (cache_file cfg e p) \<and>
      magick_runs (events (snd (transform_wallpaper cfg p e margs
          (snd (transform_wallpaper cfg p e margs w))))) =
        magick_runs (events w) + (if which w ''magick'' then 2 else 0)) \<and>
   (path_exists w (cache_file cfg e p) \<longrightarrow>
      events (snd (transform_wallpaper cfg p e margs w)) = events w \<and>
      events (snd (transform_wallpaper cfg p e margs (snd (transform_wallpaper cfg p e margs w)))) =
        events w)"
proof (intro conjI impI)
  let ?w1 = "snd (transform_wallpaper cfg p e margs w)"
  let ?w2 = "snd (transform_wallpaper cfg p e margs ?w1)"
  let ?x = "magick_out w (magick_cmd cfg p e margs)"
  {
    assume a: "\<not> path_exists w (cache_file cfg e p) \<and> magick_ok cfg p e margs w \<and>
      is_dir w (GENERATED_DIR cfg)"
    then have a': "\<not> path_exists w (cache_file cfg e p)" "magick_ok cfg p e margs w"
      "is_dir w (GENERATED_DIR cfg)" by simp_all
    note m = transform_miss_ok [OF a']
    have lk: "lookup ?w1 (cache_file cfg e p) = Some (File ?x)"
      "lookup ?w1 (generic_file cfg e) = Some (File ?x)"
      "is_dir ?w1 (CACHE_DIR cfg)" "\<not> is_dir ?w1 (generic_file cfg e)"
      using a'(2) by (simp_all add: prims m(3) update_conv' path_facts magick_ok_def)
    note h = transform_hit_file [OF lk(1,3,4), of margs]
    have ev2: "events ?w2 = events ?w1"
      by (rule transform_hit(1)) (simp add: path_exists_def lk(1))
    show "fst (transform_wallpaper cfg p e margs w) = Inr ()" by (rule m(1))
    show "events ?w1 = events w @ [Exec (magick_cmd cfg p e margs) True]" by (rule m(2))
    show "lookup ?w1 (cache_file cfg e p) = Some (File ?x)" by (rule lk(1))
    show "lookup ?w1 (generic_file cfg e) = Some (File ?x)" by (rule lk(2))
    show "fst (transform_wallpaper cfg p e margs ?w1) = Inr ()" by (rule h(1))
    show "events ?w2 = events ?w1" by (rule ev2)
    show "fs ?w2 = AList.update (generic_file cfg e) (File ?x) (fs ?w1)" by (rule h(2))
    show "magick_runs (events ?w2) = magick_runs (events w) + 1"
      by (simp add: ev2 m(2))
  }
  {
    assume a: "\<not> path_exists w (cache_file cfg e p) \<and> \<not> magick_ok cfg p e margs w"
    then have a': "\<not> path_exists w (cache_file cfg e p)" "\<not> magick_ok cfg p e margs w"
      by simp_all
    note f1 = transform_miss_fail [OF a']
    have b: "\<not> path_exists ?w1 (cache_file cfg e p)" "\<not> magick_ok cfg p e margs ?w1"
      "which ?w1 ''magick'' = which w ''magick''"
      using a' f1 by (simp_all add: prims magick_ok_def)
    note f2 = transform_miss_fail [OF b(1,2)]
    show "fs ?w1 = fs w" using f1 by simp
    show "\<not> path_exists ?w1 (cache_file cfg e p)" by (rule b(1))
    show "magick_runs (events ?w2) =
        magick_runs (events w) + (if which w ''magick'' then 2 else 0)"
      using f1 f2 b(3) by simp
  }
  {
    assume a: "path_exists w (cache_file cfg e p)"
    note h1 = transform_hit [OF a, of margs]
    note h2 = transform_hit [OF h1(2), of margs]
    show "events ?w1 = events w" by (rule h1(1))
    show "events ?w2 = events w" using h1(1) h2(1) by simp
  }
qed

theorem transform_wallpaper_twice_witness:
  "\<not> path_exists world0 (cache_file cfg0 ''square'' a_png) \<and>
   magick_ok cfg0 a_png ''square'' square_args world0 \<and>
   is_dir world0 (GENERATED_DIR cfg0) \<and>
   lookup (snd (transform_wallpaper cfg0 a_png ''square'' square_args world0))
     (cache_file cfg0 ''square'' a_png) = Some (File ''png'') \<and>
   events (snd (transform_wallpaper cfg0 a_png ''square'' square_args
     (snd (transform_wallpaper cfg0 a_png ''square'' square_args world0)))) =
     [Exec (magick_cmd cfg0 a_png ''square'' square_args) True] \<and>
   \<not> magick_ok cfg0 a_png ''square'' square_args magick_fails \<and>
   \<not> path_exists (snd (transform_wallpaper cfg0 a_png ''square'' square_args magick_fails))
     (cache_file cfg0 ''square'' a_png)"
proof -
  have h: "\<not> path_exists world0 (cache_file cfg0 ''square'' a_png)"
    "magick_ok cfg0 a_png ''square'' square_args world0"
    "is_dir world0 (GENERATED_DIR cfg0)"
    "\<not> path_exists magick_fails (cache_file cfg0 ''square'' a_png)"
    "\<not> magick_ok cfg0 a_png ''square'' square_args magick_fails"
    by code_simp+
  have v: "magick_out world0 c = ''png''" "events world0 = []" for c
    by (simp_all add: world0_def)
  from transform_wallpaper_twice [of world0 cfg0 "''square''" a_png square_args]
    transform_wallpaper_twice [of magick_fails cfg0 "''square''" a_png square_args] h
  show ?thesis by (simp add: v)
qed

end
